theory Spec2Isabelle
  imports
    Complex_Main
    "HOL-Library.AList"
    "HOL-Library.Char_ord"
    "HOL-Library.List_Lexorder"
    "HOL-Library.Product_Lexorder"
    "HOL-Library.Multiset"
begin

section \<open>Shared data model\<close>

text \<open>
  The pipeline's stages exchange pandas tables. A table is modelled row-wise: the list of
  its column names and, per row, an association list from column name to cell. A cell
  is a string (a category code), a number, a timestamp, or null (Python's \<open>None\<close>,
  pandas' \<open>NaN\<close> and \<open>NaT\<close>).

  Timestamps are modelled at day resolution as (year, month, day); with the
  lexicographic order on triples, \<open>\<le>\<close> is chronological order. Numbers are
  modelled as reals: the code only carries them and compares them with zero.
  Python dictionaries are association lists holding the dictionary's items in insertion
  order, one pair per key.
\<close>

type_synonym timestamp = "int \<times> int \<times> int"

datatype cell = CNull | CStr string | CNum real | CTime timestamp

type_synonym row = "(string \<times> cell) list"

record dataframe =
  columns :: "string list"
  rows :: "row list"

text \<open>Every \<open>raise\<close> of the source, and every exception of a library call it makes.\<close>

datatype error =
    RuntimeError_UnexpectedPayloadKeys
  | KeyError string
  | TypeError_UnsupportedCategoryIndex
  | TypeError_NoLen
  | RuntimeError_ValueLengthMismatch nat int
  | TypeError_UnsupportedValueType
  | IndexError
  | ValueError
  | TypeError_Compare
  | RuntimeError_NoProcessedParquet string
  | RuntimeError_NotPass string
  | ResourceNotFoundError string
  | DecodeError string
  | ValueError_MissingSqlEnv
  | ProgrammingError
  | IntegrityError

text \<open>\<open>row.get(c)\<close>, and what \<open>pd.DataFrame(rows)\<close> stores for a key a row lacks.\<close>

definition cell_at :: "row \<Rightarrow> string \<Rightarrow> cell" where
  "cell_at r c = (case map_of r c of None \<Rightarrow> CNull | Some v \<Rightarrow> v)"

section \<open>Transformer: \<open>src/ingestion/process_hicp_silver.py\<close>\<close>

subsection \<open>The JSON-stat payload\<close>

text \<open>
  \<open>payload: Dict[str, Any]\<close>: each of the four keys the code reads may be absent.
  \<open>category.index\<close> is a dict from code to position, a list of codes, or something else;
  \<open>value\<close> is a list, a dict keyed by the decimal flat index, or something else (for
  which \<open>len\<close> either is defined, as for a string, or raises).
\<close>

datatype category_index =
    IndexDict "(string \<times> int) list"
  | IndexList "string list"
  | IndexOther

record category_obj =
  index :: "category_index option"

record dim_obj =
  category :: "category_obj option"

datatype value_enc =
    ValueList "real option list"
  | ValueDict "(string \<times> real option) list"
  | ValueOther "nat option"

record payload =
  payload_dimension :: "(string \<times> dim_obj) list option"
  payload_id :: "string list option"
  payload_size :: "int list option"
  payload_value :: "value_enc option"

subsection \<open>\<open>_ordered_category_codes\<close>\<close>

definition ordered_category_codes :: "dim_obj \<Rightarrow> error + string list" where
  "ordered_category_codes d =
     (let idx = (case category d of None \<Rightarrow> None | Some cat \<Rightarrow> index cat) in
      case idx of
        None \<Rightarrow> Inr []
      | Some (IndexDict kvs) \<Rightarrow> Inr (map fst (sort_key snd kvs))
      | Some (IndexList ks) \<Rightarrow> Inr ks
      | Some IndexOther \<Rightarrow> Inl TypeError_UnsupportedCategoryIndex)"

subsection \<open>\<open>_parse_time_code\<close>\<close>

definition is_digit :: "char \<Rightarrow> bool" where
  "is_digit c = (c \<in> set ''0123456789'')"

definition digit_val :: "char \<Rightarrow> int" where
  "digit_val c = int (of_char c) - 48"

definition int_of_digits :: "string \<Rightarrow> int" where
  "int_of_digits s = foldl (\<lambda>acc c. 10 * acc + digit_val c) 0 s"

text \<open>
  \<open>re.match(r"^(\d{4})M(\d{2})$", s)\<close>: four digits, \<open>M\<close>, two digits; \<open>$\<close> also matches
  just before a final newline. The result is the two groups.
\<close>

definition match_monthly :: "string \<Rightarrow> (string \<times> string) option" where
  "match_monthly s =
     (let core = (if length s = 8 \<and> last s = CHR 0x0A then butlast s else s) in
      if length core = 7 \<and> list_all is_digit (take 4 core) \<and> core ! 4 = CHR ''M''
         \<and> list_all is_digit (drop 5 core)
      then Some (take 4 core, drop 5 core) else None)"

text \<open>
  \<open>pd.Timestamp(year, month, day)\<close> raises \<open>ValueError\<close> unless the three make a calendar
  date (\<open>datetime.MINYEAR\<close> is 1).
\<close>

definition is_leap :: "int \<Rightarrow> bool" where
  "is_leap y = (y mod 4 = 0 \<and> (y mod 100 \<noteq> 0 \<or> y mod 400 = 0))"

definition days_in_month :: "int \<Rightarrow> int \<Rightarrow> int" where
  "days_in_month y m =
     (if m = 2 then (if is_leap y then 29 else 28)
      else if m \<in> {4, 6, 9, 11} then 30 else 31)"

definition Timestamp :: "int \<Rightarrow> int \<Rightarrow> int \<Rightarrow> error + timestamp" where
  "Timestamp y m d =
     (if 1 \<le> y \<and> 1 \<le> m \<and> m \<le> 12 \<and> 1 \<le> d \<and> d \<le> days_in_month y m
      then Inr (y, m, d) else Inl ValueError)"

text \<open>
  The parameter \<open>to_datetime\<close> stands for \<open>pd.to_datetime(s, errors="coerce")\<close> on a string:
  \<open>None\<close> is \<open>NaT\<close>.
\<close>

definition parse_time_code ::
  "(string \<Rightarrow> timestamp option) \<Rightarrow> string option \<Rightarrow> error + timestamp option" where
  "parse_time_code to_datetime t =
     (case t of
        None \<Rightarrow> Inr None
      | Some s \<Rightarrow>
          (case match_monthly s of
             Some (g1, g2) \<Rightarrow>
               (case Timestamp (int_of_digits g1) (int_of_digits g2) 1 of
                  Inl e \<Rightarrow> Inl e
                | Inr ts \<Rightarrow> Inr (Some ts))
           | None \<Rightarrow>
               (case to_datetime s of
                  None \<Rightarrow> Inr None
                | Some (y, m, d) \<Rightarrow>
                    if d = 1 then Inr (Some (y, m, d))
                    else (case Timestamp y m 1 of
                            Inl e \<Rightarrow> Inl e
                          | Inr ts \<Rightarrow> Inr (Some ts)))))"

subsection \<open>\<open>jsonstat_to_dataframe\<close>\<close>

text \<open>The loop \<open>for d in dim_order: codes_by_dim.append(_ordered_category_codes(dim[d]))\<close>.\<close>

fun codes_by_dim_loop :: "(string \<times> dim_obj) list \<Rightarrow> string list \<Rightarrow> error + string list list" where
  "codes_by_dim_loop dimension [] = Inr []"
| "codes_by_dim_loop dimension (d # ds) =
     (case map_of dimension d of
        None \<Rightarrow> Inl (KeyError d)
      | Some dobj \<Rightarrow>
          (case ordered_category_codes dobj of
             Inl e \<Rightarrow> Inl e
           | Inr codes \<Rightarrow>
               (case codes_by_dim_loop dimension ds of
                  Inl e \<Rightarrow> Inl e
                | Inr rest \<Rightarrow> Inr (codes # rest))))"

text \<open>\<open>len(values)\<close>: \<open>None\<close> when the object has no length.\<close>

definition len_values :: "value_enc \<Rightarrow> nat option" where
  "len_values v =
     (case v of ValueList xs \<Rightarrow> Some (length xs)
              | ValueDict kvs \<Rightarrow> Some (length kvs)
              | ValueOther n \<Rightarrow> n)"

text \<open>\<open>str(i)\<close> for a non-negative integer.\<close>

fun str_of_nat :: "nat \<Rightarrow> string" where
  "str_of_nat n =
     (if n < 10 then [char_of (48 + n)]
      else str_of_nat (n div 10) @ [char_of (48 + n mod 10)])"

definition num_cell :: "real option \<Rightarrow> cell" where
  "num_cell v = (case v of None \<Rightarrow> CNull | Some x \<Rightarrow> CNum x)"

text \<open>
  \<open>values[i]\<close> for a list, \<open>values.get(str(i))\<close> for a dict, \<open>TypeError\<close> otherwise.
\<close>

definition value_at :: "value_enc \<Rightarrow> nat \<Rightarrow> error + cell" where
  "value_at values i =
     (case values of
        ValueList xs \<Rightarrow> (if i < length xs then Inr (num_cell (xs ! i)) else Inl IndexError)
      | ValueDict kvs \<Rightarrow>
          Inr (num_cell (case map_of kvs (str_of_nat i) of None \<Rightarrow> None | Some v \<Rightarrow> v))
      | ValueOther n \<Rightarrow> Inl TypeError_UnsupportedValueType)"

text \<open>
  \<open>{dim_order[j]: combo[j] for j in range(len(dim_order))}\<close>: a later duplicate of a
  dimension name overwrites the earlier entry in place.
\<close>

definition dims_row :: "string list \<Rightarrow> string list \<Rightarrow> row" where
  "dims_row dim_order combo =
     fold (\<lambda>(k, v) r. AList.update k (CStr v) r) (zip dim_order combo) []"

text \<open>The loop over \<open>enumerate(product(*codes_by_dim))\<close>, from position \<open>i\<close>.\<close>

fun build_rows :: "string list \<Rightarrow> value_enc \<Rightarrow> nat \<Rightarrow> string list list \<Rightarrow> error + row list" where
  "build_rows dim_order values i [] = Inr []"
| "build_rows dim_order values i (combo # combos) =
     (case value_at values i of
        Inl e \<Rightarrow> Inl e
      | Inr v \<Rightarrow>
          (case build_rows dim_order values (Suc i) combos of
             Inl e \<Rightarrow> Inl e
           | Inr rest \<Rightarrow> Inr (AList.update ''value'' v (dims_row dim_order combo) # rest)))"

text \<open>\<open>pd.DataFrame(rows)\<close>: the columns are the rows' keys (all rows have the same keys).\<close>

definition DataFrame :: "row list \<Rightarrow> dataframe" where
  "DataFrame rs = \<lparr>columns = (case rs of [] \<Rightarrow> [] | r # _ \<Rightarrow> map fst r), rows = rs\<rparr>"

text \<open>
  \<open>df["time"].map(_parse_time_code)\<close>. A cell of the time column is a category code
  or null; the last case is not reachable from \<open>jsonstat_to_dataframe\<close>.
\<close>

definition parse_time_cell :: "(string \<Rightarrow> timestamp option) \<Rightarrow> cell \<Rightarrow> error + cell" where
  "parse_time_cell to_datetime c =
     (case c of
        CStr s \<Rightarrow> (case parse_time_code to_datetime (Some s) of
                     Inl e \<Rightarrow> Inl e
                   | Inr None \<Rightarrow> Inr CNull
                   | Inr (Some ts) \<Rightarrow> Inr (CTime ts))
      | CNull \<Rightarrow> Inr CNull
      | _ \<Rightarrow> Inr c)"

fun map_time :: "(string \<Rightarrow> timestamp option) \<Rightarrow> row list \<Rightarrow> error + row list" where
  "map_time to_datetime [] = Inr []"
| "map_time to_datetime (r # rs) =
     (case parse_time_cell to_datetime (cell_at r ''time'') of
        Inl e \<Rightarrow> Inl e
      | Inr c \<Rightarrow>
          (case map_time to_datetime rs of
             Inl e \<Rightarrow> Inl e
           | Inr rest \<Rightarrow> Inr (AList.update ''time'' c r # rest)))"

definition ordered_cols :: "string list \<Rightarrow> string list" where
  "ordered_cols cols = filter (\<lambda>c. c \<in> set cols) [''time'', ''geo'', ''coicop'', ''unit'', ''value'']"

definition sort_cols :: "string list \<Rightarrow> string list" where
  "sort_cols cols = filter (\<lambda>c. c \<in> set cols) [''geo'', ''coicop'', ''time'']"

text \<open>\<open>df[cols]\<close> on one row.\<close>

definition select_cols :: "string list \<Rightarrow> row \<Rightarrow> row" where
  "select_cols cols r = map (\<lambda>c. (c, cell_at r c)) cols"

text \<open>
  The key \<open>sort_values\<close> compares: ascending, nulls last. Sorting is modelled as a stable
  sort on the list of the key columns' cells. With a single key column pandas sorts with
  quicksort and may return rows of equal key in another order; the theorems below speak
  of the rows as a multiset and of the order of their keys, not of the order of ties.
\<close>

definition cell_key :: "cell \<Rightarrow> nat \<times> string \<times> timestamp \<times> real" where
  "cell_key c =
     (case c of
        CNull \<Rightarrow> (1, [], (0, 0, 0), 0)
      | CStr s \<Rightarrow> (0, s, (0, 0, 0), 0)
      | CTime ts \<Rightarrow> (0, [], ts, 0)
      | CNum x \<Rightarrow> (0, [], (0, 0, 0), x))"

definition row_key :: "string list \<Rightarrow> row \<Rightarrow> (nat \<times> string \<times> timestamp \<times> real) list" where
  "row_key cols r = map (\<lambda>c. cell_key (cell_at r c)) cols"

definition sort_values :: "string list \<Rightarrow> row list \<Rightarrow> row list" where
  "sort_values cols rs = sort_key (row_key cols) rs"

text \<open>Lines 108 to 118: build the table, parse the time column, reorder, sort.\<close>

definition tidy :: "(string \<Rightarrow> timestamp option) \<Rightarrow> row list \<Rightarrow> error + dataframe" where
  "tidy to_datetime rs =
     (let df = DataFrame rs in
      case (if ''time'' \<in> set (columns df) then map_time to_datetime (rows df)
            else Inr (rows df)) of
        Inl e \<Rightarrow> Inl e
      | Inr rs' \<Rightarrow>
          (let cols = ordered_cols (columns df) in
           Inr \<lparr>columns = cols,
                rows = sort_values (sort_cols cols) (map (select_cols cols) rs')\<rparr>))"

definition jsonstat_to_dataframe ::
  "(string \<Rightarrow> timestamp option) \<Rightarrow> payload \<Rightarrow> error + dataframe" where
  "jsonstat_to_dataframe to_datetime p =
     (case (payload_dimension p, payload_value p) of
        (Some dimension, Some values) \<Rightarrow>
          (case payload_id p of
             None \<Rightarrow> Inl (KeyError ''id'')
           | Some dim_order \<Rightarrow>
          (case payload_size p of
             None \<Rightarrow> Inl (KeyError ''size'')
           | Some sizes \<Rightarrow>
          (case codes_by_dim_loop dimension dim_order of
             Inl e \<Rightarrow> Inl e
           | Inr codes_by_dim \<Rightarrow>
          (let expected_len = prod_list sizes in
           case len_values values of
             None \<Rightarrow> Inl TypeError_NoLen
           | Some n \<Rightarrow>
               if int n \<noteq> expected_len
               then Inl (RuntimeError_ValueLengthMismatch n expected_len)
               else (case build_rows dim_order values 0 (product_lists codes_by_dim) of
                       Inl e \<Rightarrow> Inl e
                     | Inr rs \<Rightarrow> tidy to_datetime rs)))))
      | _ \<Rightarrow> Inl RuntimeError_UnexpectedPayloadKeys)"

section \<open>Validator: \<open>src/quality/check_hicp_quality.py\<close>\<close>

subsection \<open>The report\<close>

datatype detail =
    Missing "string list"
  | NullCounts "(string \<times> nat) list"
  | DuplicateRows nat "string list"
  | NonPositive nat
  | UnparseableTimeRows nat
  | FreqDetails "(cell \<times> cell \<times> cell) list"

record check_result =
  check_name :: string
  check_passed :: bool
  check_detail :: detail

record summary =
  summary_rows :: nat
  summary_columns :: "string list"
  min_time :: "timestamp option"
  max_time :: "timestamp option"
  value_min :: "real option"
  value_max :: "real option"

record report =
  report_passed :: bool
  report_checks :: "check_result list"
  report_summary :: summary

subsection \<open>\<open>pd.to_datetime\<close> on a column\<close>

text \<open>
  A null cell gives \<open>NaT\<close> and a timestamp is kept. The parameter \<open>conv\<close> stands for the
  library's conversion of any other cell (\<open>None\<close>: it does not parse). With
  \<open>errors="coerce"\<close> a cell that does not parse becomes \<open>NaT\<close>; without it the call raises.
\<close>

definition to_datetime_coerce :: "(cell \<Rightarrow> timestamp option) \<Rightarrow> cell \<Rightarrow> timestamp option" where
  "to_datetime_coerce conv c =
     (case c of CNull \<Rightarrow> None | CTime ts \<Rightarrow> Some ts | _ \<Rightarrow> conv c)"

fun to_datetime_raise :: "(cell \<Rightarrow> timestamp option) \<Rightarrow> cell list \<Rightarrow> error + timestamp list" where
  "to_datetime_raise conv [] = Inr []"
| "to_datetime_raise conv (c # cs) =
     (case to_datetime_coerce conv c of
        None \<Rightarrow> Inl ValueError
      | Some ts \<Rightarrow>
          (case to_datetime_raise conv cs of
             Inl e \<Rightarrow> Inl e
           | Inr rest \<Rightarrow> Inr (ts # rest)))"

subsection \<open>\<open>_monthly_frequency_ok\<close>\<close>

definition month_index :: "timestamp \<Rightarrow> int" where
  "month_index ts = (case ts of (y, m, d) \<Rightarrow> y * 12 + (m - 1))"

definition month_start :: "int \<Rightarrow> timestamp" where
  "month_start k = (k div 12, k mod 12 + 1, 1)"

text \<open>
  \<open>pd.date_range(start, end, freq="MS")\<close>: the first days of months from \<open>start\<close>
  (rolled forward to the next month start when it is not one) up to \<open>end\<close>.
\<close>

definition date_range_MS :: "timestamp \<Rightarrow> timestamp \<Rightarrow> timestamp list" where
  "date_range_MS start end_ts =
     (let first = (case start of (y, m, d) \<Rightarrow>
                     if d = 1 then month_index start else month_index start + 1)
      in map month_start [first..month_index end_ts])"

definition monthly_frequency_ok :: "(cell \<Rightarrow> timestamp option) \<Rightarrow> cell list \<Rightarrow> error + bool" where
  "monthly_frequency_ok conv time_col =
     (case to_datetime_raise conv (filter (\<lambda>c. c \<noteq> CNull) time_col) of
        Inl e \<Rightarrow> Inl e
      | Inr ts \<Rightarrow>
          (let t = remdups (sort ts) in
           if length t < 3 then Inr True
           else (let expected = date_range_MS (t ! 0) (last t)
                 in Inr (length expected = length t \<and> list_all2 (=) expected t))))"

subsection \<open>\<open>run_checks\<close>\<close>

text \<open>
  The function threads two variables through the rules, the list \<open>checks\<close> and the flag
  \<open>passed\<close>; each rule below is one numbered block of the source, taking and returning
  the pair.
\<close>

type_synonym checks_state = "check_result list \<times> bool"

definition required_cols :: "string list" where
  "required_cols = [''time'', ''geo'', ''coicop'', ''unit'', ''value'']"

definition missing_cols :: "dataframe \<Rightarrow> string list" where
  "missing_cols df = filter (\<lambda>c. c \<notin> set (columns df)) required_cols"

definition column :: "dataframe \<Rightarrow> string \<Rightarrow> cell list" where
  "column df c = map (\<lambda>r. cell_at r c) (rows df)"

definition rule_schema :: "dataframe \<Rightarrow> checks_state \<Rightarrow> checks_state" where
  "rule_schema df st =
     (case st of (checks, passed) \<Rightarrow>
        (let missing = missing_cols df in
         (checks @ [\<lparr>check_name = ''schema_required_columns'',
                     check_passed = (length missing = 0),
                     check_detail = Missing missing\<rparr>],
          passed \<and> length missing = 0)))"

definition null_counts :: "dataframe \<Rightarrow> (string \<times> nat) list" where
  "null_counts df = map (\<lambda>c. (c, length (filter (\<lambda>v. v = CNull) (column df c)))) required_cols"

definition rule_non_null :: "dataframe \<Rightarrow> checks_state \<Rightarrow> checks_state" where
  "rule_non_null df st =
     (case st of (checks, passed) \<Rightarrow>
        if length (missing_cols df) = 0
        then (let nc = null_counts df in
              (checks @ [\<lparr>check_name = ''non_null_required_columns'',
                          check_passed = list_all (\<lambda>v. v = 0) (map snd nc),
                          check_detail = NullCounts nc\<rparr>],
               passed \<and> list_all (\<lambda>v. v = 0) (map snd nc)))
        else (checks, passed))"

text \<open>\<open>df.duplicated(subset=key_cols)\<close>: a row is marked when an earlier row has its key.\<close>

fun duplicated :: "'a list \<Rightarrow> 'a list \<Rightarrow> bool list" where
  "duplicated seen [] = []"
| "duplicated seen (k # ks) = (k \<in> set seen) # duplicated (k # seen) ks"

definition rule_duplicates :: "dataframe \<Rightarrow> checks_state \<Rightarrow> checks_state" where
  "rule_duplicates df st =
     (case st of (checks, passed) \<Rightarrow>
        (let key_cols = filter (\<lambda>c. c \<in> set (columns df)) [''time'', ''geo'', ''coicop'', ''unit''] in
         if key_cols \<noteq> []
         then (let dup_count =
                     length (filter (\<lambda>b. b)
                       (duplicated [] (map (\<lambda>r. map (cell_at r) key_cols) (rows df))))
               in (checks @ [\<lparr>check_name = ''no_duplicate_keys'',
                              check_passed = (dup_count = 0),
                              check_detail = DuplicateRows dup_count key_cols\<rparr>],
                   passed \<and> dup_count = 0))
         else (checks, passed)))"

text \<open>
  \<open>df["value"] <= 0\<close>, cell by cell: a null compares false; a string or a timestamp
  against \<open>0\<close> raises \<open>TypeError\<close>.
\<close>

fun le_zero :: "cell list \<Rightarrow> error + bool list" where
  "le_zero [] = Inr []"
| "le_zero (c # cs) =
     (case (case c of CNum x \<Rightarrow> Inr (x \<le> 0)
                    | CNull \<Rightarrow> Inr False
                    | _ \<Rightarrow> Inl TypeError_Compare) of
        Inl e \<Rightarrow> Inl e
      | Inr b \<Rightarrow>
          (case le_zero cs of
             Inl e \<Rightarrow> Inl e
           | Inr bs \<Rightarrow> Inr (b # bs)))"

definition rule_value_positive :: "dataframe \<Rightarrow> checks_state \<Rightarrow> error + checks_state" where
  "rule_value_positive df st =
     (case st of (checks, passed) \<Rightarrow>
        if ''value'' \<in> set (columns df)
        then (case le_zero (column df ''value'') of
                Inl e \<Rightarrow> Inl e
              | Inr bs \<Rightarrow>
                  (let non_positive = length (filter (\<lambda>b. b) bs) in
                   Inr (checks @ [\<lparr>check_name = ''value_positive'',
                                   check_passed = (non_positive = 0),
                                   check_detail = NonPositive non_positive\<rparr>],
                        passed \<and> non_positive = 0)))
        else Inr (checks, passed))"

definition rule_time_parseable ::
  "(cell \<Rightarrow> timestamp option) \<Rightarrow> dataframe \<Rightarrow> checks_state \<Rightarrow> checks_state" where
  "rule_time_parseable conv df st =
     (case st of (checks, passed) \<Rightarrow>
        if ''time'' \<in> set (columns df)
        then (let time_na =
                    length (filter (\<lambda>c. to_datetime_coerce conv c = None) (column df ''time''))
              in (checks @ [\<lparr>check_name = ''time_parseable'',
                             check_passed = (time_na = 0),
                             check_detail = UnparseableTimeRows time_na\<rparr>],
                  passed \<and> time_na = 0))
        else (checks, passed))"

text \<open>
  \<open>df.groupby(["geo", "coicop", "unit"])\<close>: rows with a null in a grouping column are
  dropped; the groups come sorted by key.
\<close>

definition group_key :: "row \<Rightarrow> cell \<times> cell \<times> cell" where
  "group_key r = (cell_at r ''geo'', cell_at r ''coicop'', cell_at r ''unit'')"

definition has_group :: "row \<Rightarrow> bool" where
  "has_group r =
     (cell_at r ''geo'' \<noteq> CNull \<and> cell_at r ''coicop'' \<noteq> CNull \<and> cell_at r ''unit'' \<noteq> CNull)"

definition groupby :: "dataframe \<Rightarrow> ((cell \<times> cell \<times> cell) \<times> row list) list" where
  "groupby df =
     (let rs = filter has_group (rows df);
          ks = sort_key (\<lambda>k. case k of (g, c, u) \<Rightarrow> (cell_key g, cell_key c, cell_key u))
                 (remdups (map group_key rs))
      in map (\<lambda>k. (k, filter (\<lambda>r. group_key r = k) rs)) ks)"

text \<open>The loop over the groups: \<open>freq_pass &= ok\<close>, and a detail for a failing group.\<close>

fun freq_loop ::
  "(cell \<Rightarrow> timestamp option) \<Rightarrow> ((cell \<times> cell \<times> cell) \<times> row list) list \<Rightarrow>
   bool \<times> (cell \<times> cell \<times> cell) list \<Rightarrow> error + bool \<times> (cell \<times> cell \<times> cell) list" where
  "freq_loop conv [] acc = Inr acc"
| "freq_loop conv ((k, sub) # gs) acc =
     (case acc of (freq_pass, freq_details) \<Rightarrow>
        (case monthly_frequency_ok conv (map (\<lambda>r. cell_at r ''time'') sub) of
           Inl e \<Rightarrow> Inl e
         | Inr ok \<Rightarrow>
             freq_loop conv gs
               (freq_pass \<and> ok, if \<not> ok then freq_details @ [k] else freq_details)))"

definition rule_monthly_frequency ::
  "(cell \<Rightarrow> timestamp option) \<Rightarrow> dataframe \<Rightarrow> checks_state \<Rightarrow> error + checks_state" where
  "rule_monthly_frequency conv df st =
     (case st of (checks, passed) \<Rightarrow>
        if list_all (\<lambda>c. c \<in> set (columns df)) [''time'', ''geo'', ''coicop'', ''unit'']
        then (case freq_loop conv (groupby df) (True, []) of
                Inl e \<Rightarrow> Inl e
              | Inr (freq_pass, freq_details) \<Rightarrow>
                  Inr (checks @ [\<lparr>check_name = ''monthly_frequency_no_gaps'',
                                  check_passed = freq_pass,
                                  check_detail = FreqDetails freq_details\<rparr>],
                       passed \<and> freq_pass))
        else Inr (checks, passed))"

definition min_opt :: "('a::linorder) list \<Rightarrow> 'a option" where
  "min_opt xs = (case xs of [] \<Rightarrow> None | x # ys \<Rightarrow> Some (fold min ys x))"

definition max_opt :: "('a::linorder) list \<Rightarrow> 'a option" where
  "max_opt xs = (case xs of [] \<Rightarrow> None | x # ys \<Rightarrow> Some (fold max ys x))"

definition nums :: "cell list \<Rightarrow> real list" where
  "nums cs = concat (map (\<lambda>c. case c of CNum x \<Rightarrow> [x] | _ \<Rightarrow> []) cs)"

definition make_summary :: "(cell \<Rightarrow> timestamp option) \<Rightarrow> dataframe \<Rightarrow> summary" where
  "make_summary conv df =
     (let t = (if ''time'' \<in> set (columns df)
               then concat (map (\<lambda>c. case to_datetime_coerce conv c of
                                         None \<Rightarrow> [] | Some ts \<Rightarrow> [ts]) (column df ''time''))
               else []);
          v = (if ''value'' \<in> set (columns df) then nums (column df ''value'') else [])
      in \<lparr>summary_rows = length (rows df),
          summary_columns = columns df,
          min_time = min_opt t,
          max_time = max_opt t,
          value_min = min_opt v,
          value_max = max_opt v\<rparr>)"

definition run_checks :: "(cell \<Rightarrow> timestamp option) \<Rightarrow> dataframe \<Rightarrow> error + report" where
  "run_checks conv df =
     (let st1 = rule_schema df ([], True);
          st2 = rule_non_null df st1;
          st3 = rule_duplicates df st2
      in case rule_value_positive df st3 of
           Inl e \<Rightarrow> Inl e
         | Inr st4 \<Rightarrow>
             (let st5 = rule_time_parseable conv df st4
              in case rule_monthly_frequency conv df st5 of
                   Inl e \<Rightarrow> Inl e
                 | Inr (checks, passed) \<Rightarrow>
                     Inr \<lparr>report_passed = passed,
                          report_checks = checks,
                          report_summary = make_summary conv df\<rparr>))"

section \<open>Object store: \<open>src/storage/blob.py\<close>\<close>

text \<open>
  The container maps a blob name to its bytes and its last-modified stamp (an ISO string,
  as \<open>list_blobs\<close> makes it). The bytes are modelled decoded: a parquet table, a
  quality report document, a latest pointer document, or anything else.
\<close>

record report_meta =
  processed_blob :: string
  checked_at_utc :: string
  pipeline_stage :: string

datatype blob_content =
    ParquetContent dataframe
  | ReportContent report_meta report
  | PointerContent string
  | OtherContent

record blob =
  last_modified :: string
  content :: blob_content

type_synonym blob_store = "(string \<times> blob) list"

text \<open>\<open>upload_blob(data, overwrite=True)\<close>; \<open>stamp\<close> is the time the service records.\<close>

definition upload_bytes :: "blob_content \<Rightarrow> string \<Rightarrow> string \<Rightarrow> blob_store \<Rightarrow> blob_store" where
  "upload_bytes data blob_path stamp store =
     AList.update blob_path \<lparr>last_modified = stamp, content = data\<rparr> store"

definition download_bytes :: "blob_store \<Rightarrow> string \<Rightarrow> error + blob_content" where
  "download_bytes store blob_path =
     (case map_of store blob_path of
        None \<Rightarrow> Inl (ResourceNotFoundError blob_path)
      | Some b \<Rightarrow> Inr (content b))"

fun startswith :: "string \<Rightarrow> string \<Rightarrow> bool" where
  "startswith s [] = True"
| "startswith [] (p # ps) = False"
| "startswith (c # cs) (p # ps) = (c = p \<and> startswith cs ps)"

text \<open>The service lists the blobs under a prefix in the order of their names.\<close>

definition list_blobs :: "blob_store \<Rightarrow> string \<Rightarrow> (string \<times> string) list" where
  "list_blobs store pre =
     map (\<lambda>(n, b). (n, last_modified b))
       (sort_key fst (filter (\<lambda>(n, b). startswith n pre) store))"

definition latest_blob :: "blob_store \<Rightarrow> string \<Rightarrow> string option" where
  "latest_blob store pre =
     (let blobs = list_blobs store pre in
      if blobs = [] then None
      else Some (fst (last (sort_key snd blobs))))"

definition download_parquet :: "blob_store \<Rightarrow> string \<Rightarrow> error + dataframe" where
  "download_parquet store blob_path =
     (case download_bytes store blob_path of
        Inl e \<Rightarrow> Inl e
      | Inr (ParquetContent df) \<Rightarrow> Inr df
      | Inr _ \<Rightarrow> Inl (DecodeError blob_path))"

section \<open>Validator entry point: \<open>check_hicp_quality.main\<close>\<close>

text \<open>
  What the run reads from its environment: the two prefixes, the two clock readings
  (\<open>checked_at_utc\<close> and the \<open>ts\<close> of the report's name) and the stamps the service
  gives the two uploads.
\<close>

record validator_env =
  env_processed_prefix :: string
  env_quality_prefix :: string
  env_checked_at :: string
  env_ts :: string
  env_stamp_report :: string
  env_stamp_latest :: string

definition report_blob_name :: "validator_env \<Rightarrow> report \<Rightarrow> string" where
  "report_blob_name env rep =
     env_quality_prefix env @ ''ts='' @ env_ts env @ ''_''
       @ (if report_passed rep then ''PASS'' else ''FAIL'') @ ''.json''"

definition validator_main ::
  "validator_env \<Rightarrow> (cell \<Rightarrow> timestamp option) \<Rightarrow> blob_store \<Rightarrow> error + blob_store" where
  "validator_main env conv store =
     (case latest_blob store (env_processed_prefix env) of
        None \<Rightarrow> Inl (RuntimeError_NoProcessedParquet (env_processed_prefix env))
      | Some pblob \<Rightarrow>
          if pblob = [] then Inl (RuntimeError_NoProcessedParquet (env_processed_prefix env))
          else
          (case download_parquet store pblob of
             Inl e \<Rightarrow> Inl e
           | Inr df \<Rightarrow>
               (case run_checks conv df of
                  Inl e \<Rightarrow> Inl e
                | Inr rep \<Rightarrow>
                    (let report_meta = \<lparr>processed_blob = pblob,
                                        checked_at_utc = env_checked_at env,
                                        pipeline_stage = ''silver/quality''\<rparr>;
                         report_blob = report_blob_name env rep;
                         store1 = upload_bytes (ReportContent report_meta rep) report_blob
                                    (env_stamp_report env) store;
                         latest_blob_path = env_quality_prefix env @ ''LATEST.json''
                     in Inr (upload_bytes (PointerContent report_blob) latest_blob_path
                               (env_stamp_latest env) store1)))))"

section \<open>Loader: \<open>src/db/load_hicp_to_sql.py\<close>\<close>

text \<open>
  The relational state: the rows of \<open>dbo.fact_hicp\<close> (\<open>None\<close> while the table does not
  exist) and the log of the statements executed against the server.
\<close>

datatype statement =
    CreateTableIfMissing
  | DeleteSeries string string string
  | InsertRows "row list"

record db =
  fact_hicp :: "row list option"
  executed :: "statement list"

definition QUALITY_LATEST_PTR :: string where
  "QUALITY_LATEST_PTR = ''metadata/quality/hicp/prc_hicp_midx/geo=LU/coicop=CP00/LATEST.json''"

text \<open>Python's \<open>sub in s\<close> on strings.\<close>

fun str_contains :: "string \<Rightarrow> string \<Rightarrow> bool" where
  "str_contains sub [] = (sub = [])"
| "str_contains sub (c # cs) = (startswith (c # cs) sub \<or> str_contains sub cs)"

definition get_latest_pass_processed_blob :: "blob_store \<Rightarrow> error + string" where
  "get_latest_pass_processed_blob store =
     (case download_bytes store QUALITY_LATEST_PTR of
        Inl e \<Rightarrow> Inl e
      | Inr (PointerContent report_blob) \<Rightarrow>
          if \<not> str_contains ''_PASS.json'' report_blob
          then Inl (RuntimeError_NotPass report_blob)
          else (case download_bytes store report_blob of
                  Inl e \<Rightarrow> Inl e
                | Inr (ReportContent m rep) \<Rightarrow> Inr (processed_blob m)
                | Inr (PointerContent x) \<Rightarrow> Inl (KeyError ''meta'')
                | Inr _ \<Rightarrow> Inl (DecodeError report_blob))
      | Inr (ReportContent m rep) \<Rightarrow> Inl (KeyError ''latest_report'')
      | Inr _ \<Rightarrow> Inl (DecodeError QUALITY_LATEST_PTR))"

definition ensure_table :: "db \<Rightarrow> db" where
  "ensure_table d =
     \<lparr>fact_hicp = (case fact_hicp d of None \<Rightarrow> Some [] | Some t \<Rightarrow> Some t),
      executed = executed d @ [CreateTableIfMissing]\<rparr>"

definition in_series :: "string \<Rightarrow> string \<Rightarrow> string \<Rightarrow> row \<Rightarrow> bool" where
  "in_series geo coicop unit r =
     (cell_at r ''geo'' = CStr geo \<and> cell_at r ''coicop'' = CStr coicop
      \<and> cell_at r ''unit'' = CStr unit)"

definition delete_existing_series :: "string \<Rightarrow> string \<Rightarrow> string \<Rightarrow> db \<Rightarrow> error + db" where
  "delete_existing_series geo coicop unit d =
     (case fact_hicp d of
        None \<Rightarrow> Inl ProgrammingError
      | Some t \<Rightarrow>
          Inr \<lparr>fact_hicp = Some (filter (\<lambda>r. \<not> in_series geo coicop unit r) t),
               executed = executed d @ [DeleteSeries geo coicop unit]\<rparr>)"

text \<open>
  The table's constraints: six columns are \<open>NOT NULL\<close>, and the index
  \<open>UX_fact_hicp_key\<close> makes (time, geo, coicop, unit) unique.
\<close>

definition fact_key :: "row \<Rightarrow> cell list" where
  "fact_key r = map (cell_at r) [''time'', ''geo'', ''coicop'', ''unit'']"

definition constraints_ok :: "row list \<Rightarrow> bool" where
  "constraints_ok t =
     (list_all (\<lambda>r. list_all (\<lambda>c. cell_at r c \<noteq> CNull)
                  [''time'', ''geo'', ''coicop'', ''unit'', ''processed_at_utc'', ''raw_blob'']) t
      \<and> distinct (map fact_key t))"

text \<open>
  \<open>df.to_sql("fact_hicp", if_exists="append")\<close>: one transaction; a violated constraint
  rolls the insert back and raises.
\<close>

definition to_sql :: "row list \<Rightarrow> db \<Rightarrow> error + db" where
  "to_sql rs d =
     (let t = (case fact_hicp d of None \<Rightarrow> [] | Some t \<Rightarrow> t) in
      if constraints_ok (t @ rs)
      then Inr \<lparr>fact_hicp = Some (t @ rs), executed = executed d @ [InsertRows rs]\<rparr>
      else Inl IntegrityError)"

definition table_cols :: "string list" where
  "table_cols = [''time'', ''geo'', ''coicop'', ''unit'', ''value'', ''processed_at_utc'', ''raw_blob'']"

text \<open>\<open>pd.to_datetime(df["time"]).dt.date\<close>, row by row: a null stays null.\<close>

fun time_to_date :: "(cell \<Rightarrow> timestamp option) \<Rightarrow> row list \<Rightarrow> error + row list" where
  "time_to_date conv [] = Inr []"
| "time_to_date conv (r # rs) =
     (case (if cell_at r ''time'' = CNull then Inr CNull
            else (case to_datetime_coerce conv (cell_at r ''time'') of
                    None \<Rightarrow> Inl ValueError
                  | Some ts \<Rightarrow> Inr (CTime ts))) of
        Inl e \<Rightarrow> Inl e
      | Inr c \<Rightarrow>
          (case time_to_date conv rs of
             Inl e \<Rightarrow> Inl e
           | Inr rest \<Rightarrow> Inr (AList.update ''time'' c r # rest)))"

text \<open>\<open>str(x)\<close> of a cell; \<open>repr\<close> stands for Python's rendering of a cell that is no string.\<close>

definition str_cell :: "(cell \<Rightarrow> string) \<Rightarrow> cell \<Rightarrow> string" where
  "str_cell repr c = (case c of CStr s \<Rightarrow> s | _ \<Rightarrow> repr c)"

text \<open>
  \<open>main\<close> returns the outcome and the relational state it leaves: an exception after a
  statement has run does not undo that statement. \<open>sql_env_ok\<close> says whether the
  \<open>AZURE_SQL_*\<close> variables are all set (\<open>get_sql_engine\<close> raises otherwise).
\<close>

definition loader_main ::
  "bool \<Rightarrow> (cell \<Rightarrow> timestamp option) \<Rightarrow> (cell \<Rightarrow> string) \<Rightarrow> blob_store \<Rightarrow> db \<Rightarrow>
   error option \<times> db" where
  "loader_main sql_env_ok conv repr store d =
     (case get_latest_pass_processed_blob store of
        Inl e \<Rightarrow> (Some e, d)
      | Inr pblob \<Rightarrow>
     (case download_parquet store pblob of
        Inl e \<Rightarrow> (Some e, d)
      | Inr df0 \<Rightarrow>
     (case filter (\<lambda>c. c \<notin> set (columns df0)) table_cols of
        m # ms \<Rightarrow> (Some (KeyError m), d)
      | [] \<Rightarrow>
     (case time_to_date conv (map (select_cols table_cols) (rows df0)) of
        Inl e \<Rightarrow> (Some e, d)
      | Inr [] \<Rightarrow> (Some IndexError, d)
      | Inr (r0 # rs) \<Rightarrow>
     (let geo = str_cell repr (cell_at r0 ''geo'');
          coicop = str_cell repr (cell_at r0 ''coicop'');
          unit = str_cell repr (cell_at r0 ''unit'')
      in if \<not> sql_env_ok then (Some ValueError_MissingSqlEnv, d)
         else (let d1 = ensure_table d in
               case delete_existing_series geo coicop unit d1 of
                 Inl e \<Rightarrow> (Some e, d1)
               | Inr d2 \<Rightarrow>
                   (case to_sql (r0 # rs) d2 of
                      Inl e \<Rightarrow> (Some e, d2)
                    | Inr d3 \<Rightarrow> (None, d3))))))))"

section \<open>Example inputs\<close>

text \<open>
  A cube of two time periods, one geography, one category and one unit, with the value
  encoding left open, and stores and tables for the validator and the loader.
\<close>

definition index_dim :: "(string \<times> int) list \<Rightarrow> dim_obj" where
  "index_dim kvs = \<lparr>category = Some \<lparr>index = Some (IndexDict kvs)\<rparr>\<rparr>"

definition example_dimension :: "(string \<times> dim_obj) list" where
  "example_dimension =
     [(''time'', index_dim [(''2024M01'', 0), (''2024M02'', 1)]),
      (''geo'', index_dim [(''LU'', 0)]),
      (''coicop'', index_dim [(''CP00'', 0)]),
      (''unit'', index_dim [(''I15'', 0)])]"

definition example_cube :: "value_enc \<Rightarrow> payload" where
  "example_cube v =
     \<lparr>payload_dimension = Some example_dimension,
      payload_id = Some [''time'', ''geo'', ''coicop'', ''unit''],
      payload_size = Some [2, 1, 1, 1],
      payload_value = Some v\<rparr>"

definition fail_report_name :: string where
  "fail_report_name =
     ''metadata/quality/hicp/prc_hicp_midx/geo=LU/coicop=CP00/ts=20240301_120000_FAIL.json''"

definition fail_store :: blob_store where
  "fail_store =
     [(QUALITY_LATEST_PTR,
       \<lparr>last_modified = ''2024-03-01T12:00:01+00:00'',
        content = PointerContent fail_report_name\<rparr>)]"

definition example_db :: db where
  "example_db =
     \<lparr>fact_hicp = Some [[(''time'', CTime (2024, 1, 1)), (''geo'', CStr ''LU''),
                         (''coicop'', CStr ''CP00''), (''unit'', CStr ''I15''),
                         (''value'', CNum 100),
                         (''processed_at_utc'', CStr ''2024-02-01T00:00:00+00:00''),
                         (''raw_blob'', CStr ''raw/a.json'')]],
      executed = []\<rparr>"

section \<open>Vocabulary of the proofs\<close>

text \<open>The checks of a given name in the state that \<open>run_checks\<close> threads through its rules.\<close>

definition named :: "string \<Rightarrow> checks_state \<Rightarrow> check_result list" where
  "named n st = filter (\<lambda>c. check_name c = n) (fst st)"

text \<open>The invariant of that state: the flag is the conjunction of the checks' flags.\<close>

definition flag_is_conj :: "checks_state \<Rightarrow> bool" where
  "flag_is_conj st = (snd st = list_all check_passed (fst st))"

text \<open>A value cell that is present and not positive.\<close>

definition non_positive_cell :: "cell \<Rightarrow> bool" where
  "non_positive_cell v = (case v of CNum x \<Rightarrow> x \<le> 0 | _ \<Rightarrow> False)"

text \<open>A table with only a value column, holding 100.0, 0.0, -5.0 and null.\<close>

definition value_table :: dataframe where
  "value_table =
     \<lparr>columns = [''value''],
      rows = [[(''value'', CNum 100)], [(''value'', CNum 0)], [(''value'', CNum (- 5))],
              [(''value'', CNull)]]\<rparr>"

text \<open>A full table of one series; the January and February rows share the key.\<close>

definition obs_row :: "timestamp \<Rightarrow> real \<Rightarrow> row" where
  "obs_row ts x =
     [(''time'', CTime ts), (''geo'', CStr ''LU''), (''coicop'', CStr ''CP00''),
      (''unit'', CStr ''I15''), (''value'', CNum x)]"

definition series_table :: "timestamp list \<Rightarrow> dataframe" where
  "series_table tss =
     \<lparr>columns = [''time'', ''geo'', ''coicop'', ''unit'', ''value''],
      rows = map (\<lambda>ts. obs_row ts 100) tss\<rparr>"

text \<open>A store holding one processed table, and the environment of a validator run.\<close>

definition processed_name :: string where
  "processed_name = ''processed/hicp/prc_hicp_midx/geo=LU/coicop=CP00/ts=20240301_110000.parquet''"

definition example_env :: validator_env where
  "example_env =
     \<lparr>env_processed_prefix = ''processed/hicp/prc_hicp_midx/geo=LU/coicop=CP00/'',
      env_quality_prefix = ''metadata/quality/hicp/prc_hicp_midx/geo=LU/coicop=CP00/'',
      env_checked_at = ''2024-03-01T12:00:00+00:00'',
      env_ts = ''20240301_120000'',
      env_stamp_report = ''2024-03-01T12:00:01+00:00'',
      env_stamp_latest = ''2024-03-01T12:00:02+00:00''\<rparr>"

definition processed_store :: blob_store where
  "processed_store =
     [(processed_name,
       \<lparr>last_modified = ''2024-03-01T11:00:00+00:00'', content = ParquetContent value_table\<rparr>)]"

text \<open>
  The monthly-frequency rule in the words of the specification: the distinct sorted
  time values of a group are consecutive month starts, each the first day of the month
  after its predecessor's. \<open>times_of\<close> collects the timestamps of the cells of a time
  column that are not null.
\<close>

fun consecutive_month_starts :: "timestamp list \<Rightarrow> bool" where
  "consecutive_month_starts [] = True"
| "consecutive_month_starts [x] = (snd (snd x) = 1)"
| "consecutive_month_starts (x # y # zs) =
     (snd (snd x) = 1 \<and> month_index y = month_index x + 1
      \<and> consecutive_month_starts (y # zs))"

definition times_of :: "(cell \<Rightarrow> timestamp option) \<Rightarrow> cell list \<Rightarrow> timestamp list" where
  "times_of conv cs =
     concat (map (\<lambda>c. case to_datetime_coerce conv c of None \<Rightarrow> [] | Some ts \<Rightarrow> [ts]) cs)"

definition group_passes :: "(cell \<Rightarrow> timestamp option) \<Rightarrow> row list \<Rightarrow> bool" where
  "group_passes conv sub =
     (let t = remdups (sort (times_of conv (map (\<lambda>r. cell_at r ''time'') sub)))
      in length t < 3 \<or> consecutive_month_starts t)"

text \<open>The month of a timestamp is one of the twelve.\<close>

definition valid_month :: "timestamp \<Rightarrow> bool" where
  "valid_month ts = (case ts of (y, m, d) \<Rightarrow> 1 \<le> m \<and> m \<le> 12)"

definition valid_times :: "(cell \<Rightarrow> timestamp option) \<Rightarrow> row list \<Rightarrow> bool" where
  "valid_times conv rs =
     list_all valid_month (times_of conv (map (\<lambda>r. cell_at r ''time'') rs))"

text \<open>
  Every code of a dimension named \<open>time\<close> is one the time-code parser returns on (a
  timestamp or null), rather than raising.
\<close>

definition time_codes_parse ::
  "(string \<Rightarrow> timestamp option) \<Rightarrow> string list \<Rightarrow> string list list \<Rightarrow> bool" where
  "time_codes_parse to_datetime dim_order codes_by_dim =
     list_all (\<lambda>dc. fst dc \<noteq> ''time'' \<or>
                 list_all (\<lambda>c. case parse_time_code to_datetime (Some c) of
                                  Inl e \<Rightarrow> False | Inr t \<Rightarrow> True) (snd dc))
       (zip dim_order codes_by_dim)"

text \<open>The table the dense example cube transforms to.\<close>

definition dense_table :: dataframe where
  "dense_table =
     \<lparr>columns = [''time'', ''geo'', ''coicop'', ''unit'', ''value''],
      rows = [[(''time'', CTime (2024, 1, 1)), (''geo'', CStr ''LU''),
               (''coicop'', CStr ''CP00''), (''unit'', CStr ''I15''), (''value'', CNum 100)],
              [(''time'', CTime (2024, 2, 1)), (''geo'', CStr ''LU''),
               (''coicop'', CStr ''CP00''), (''unit'', CStr ''I15''),
               (''value'', CNum 101.5)]]\<rparr>"



section \<open>Evaluation\<close>

lemmas transform_eval =
  jsonstat_to_dataframe_def example_cube_def example_dimension_def index_dim_def
  ordered_category_codes_def len_values_def value_at_def num_cell_def dims_row_def
  tidy_def DataFrame_def parse_time_cell_def parse_time_code_def match_monthly_def
  cell_at_def is_digit_def int_of_digits_def digit_val_def Timestamp_def
  days_in_month_def ordered_cols_def sort_cols_def select_cols_def sort_values_def
  row_key_def cell_key_def

section \<open>Transformer: the sparse encoding and the time-code parser\<close>

text \<open>
  Claim C1. A sparse cube with value map \<open>{"0": 100.0}\<close> and implied size 2 should give
  two rows, the second with a null value. The code compares \<open>len(values)\<close>, here the
  number of entries of the map, with the product of the sizes before it builds any row,
  so this cube is rejected with the length-mismatch error (got 1, expected 2), although
  the row loop is written to read a missing index as null.
\<close>

theorem sparse_cube_is_rejected:
  "jsonstat_to_dataframe to_datetime (example_cube (ValueDict [(''0'', Some 100)]))
   = Inl (RuntimeError_ValueLengthMismatch 1 2)"
  by (simp add: transform_eval)

text \<open>
  Claim C2. The time-code parser maps \<open>2024M01\<close> to 2024-01-01. The code \<open>2024M13\<close> should
  give null; but the pattern \<open>\d{2}\<close> accepts the month 13, so the code takes the first
  branch and the \<open>Timestamp\<close> constructor raises \<open>ValueError\<close>.
\<close>

theorem parse_time_code_month_13_raises:
  "parse_time_code to_datetime (Some ''2024M01'') = Inr (Some (2024, 1, 1))
   \<and> match_monthly ''2024M13'' = Some (''2024'', ''13'')
   \<and> parse_time_code to_datetime (Some ''2024M13'') = Inl ValueError"
  by (simp add: parse_time_code_def match_monthly_def is_digit_def int_of_digits_def
        digit_val_def Timestamp_def days_in_month_def)

section \<open>Transformer: a payload without \<open>id\<close> or \<open>size\<close>\<close>

text \<open>
  Claim C10. A payload that has the keys \<open>dimension\<close> and \<open>value\<close> but lacks \<open>id\<close> or
  \<open>size\<close> passes the guard on the payload's keys and then fails with the key-lookup
  error of the first missing key (\<open>id\<close> is read first), not with the error the guard
  raises.
\<close>

theorem missing_id_or_size_is_KeyError:
  assumes "payload_dimension p = Some dimension"
    and "payload_value p = Some values"
    and "payload_id p = None \<or> payload_size p = None"
  shows "jsonstat_to_dataframe to_datetime p
         = Inl (KeyError (if payload_id p = None then ''id'' else ''size''))
         \<and> jsonstat_to_dataframe to_datetime p \<noteq> Inl RuntimeError_UnexpectedPayloadKeys"
  using assms by (auto simp: jsonstat_to_dataframe_def split: option.splits)

theorem missing_id_or_size_is_KeyError_witness:
  "jsonstat_to_dataframe (\<lambda>s. None)
     \<lparr>payload_dimension = Some example_dimension, payload_id = Some [''time''],
      payload_size = None, payload_value = Some (ValueList [])\<rparr>
   = Inl (KeyError ''size'')"
proof -
  let ?p = "\<lparr>payload_dimension = Some example_dimension, payload_id = Some [''time''],
             payload_size = None, payload_value = Some (ValueList [])\<rparr>"
  have h1: "payload_dimension ?p = Some example_dimension" by simp
  have h2: "payload_value ?p = Some (ValueList [])" by simp
  have h3: "payload_id ?p = None \<or> payload_size ?p = None" by simp
  from missing_id_or_size_is_KeyError [OF h1 h2 h3, of "\<lambda>s. None"]
  show ?thesis by simp
qed

section \<open>Loader: a latest report that is not PASS\<close>

text \<open>
  Claim C5. When the report named by the latest pointer is not marked PASS (its name does
  not contain \<open>_PASS.json\<close>), the loader fails with the not-passing error before it
  touches the database: the table is as it was and no statement has been executed.
\<close>

theorem loader_rejects_report_not_pass:
  assumes "download_bytes store QUALITY_LATEST_PTR = Inr (PointerContent report_blob)"
    and "\<not> str_contains ''_PASS.json'' report_blob"
  shows "loader_main sql_env_ok conv repr store d
         = (Some (RuntimeError_NotPass report_blob), d)"
  using assms by (simp add: loader_main_def get_latest_pass_processed_blob_def)

theorem loader_rejects_report_not_pass_witness:
  "loader_main True (\<lambda>c. None) (\<lambda>c. []) fail_store example_db
   = (Some (RuntimeError_NotPass fail_report_name), example_db)"
proof -
  have h1: "download_bytes fail_store QUALITY_LATEST_PTR = Inr (PointerContent fail_report_name)"
    by (simp add: download_bytes_def fail_store_def)
  have h2: "\<not> str_contains ''_PASS.json'' fail_report_name"
    by (simp add: fail_report_name_def)
  show ?thesis by (rule loader_rejects_report_not_pass [OF h1 h2])
qed

section \<open>Validator: the rules one by one\<close>

lemmas checks_eval =
  run_checks_def rule_schema_def rule_non_null_def rule_duplicates_def
  rule_value_positive_def rule_time_parseable_def rule_monthly_frequency_def
  missing_cols_def required_cols_def null_counts_def column_def cell_at_def
  make_summary_def min_opt_def max_opt_def nums_def to_datetime_coerce_def
  groupby_def group_key_def has_group_def cell_key_def monthly_frequency_ok_def
  date_range_MS_def month_index_def month_start_def

lemma named_schema:
  "named n (rule_schema df st) = named n st @
     (if n = ''schema_required_columns''
      then [\<lparr>check_name = ''schema_required_columns'', check_passed = (missing_cols df = []),
             check_detail = Missing (missing_cols df)\<rparr>] else [])"
  by (auto simp: named_def rule_schema_def Let_def split: prod.splits)

lemma named_non_null:
  "named n (rule_non_null df st) = named n st @
     (if n = ''non_null_required_columns'' \<and> missing_cols df = []
      then [\<lparr>check_name = ''non_null_required_columns'',
             check_passed = list_all (\<lambda>v. v = 0) (map snd (null_counts df)),
             check_detail = NullCounts (null_counts df)\<rparr>] else [])"
  by (auto simp: named_def rule_non_null_def Let_def split: prod.splits)

lemma named_duplicates:
  "n \<noteq> ''no_duplicate_keys'' \<Longrightarrow> named n (rule_duplicates df st) = named n st"
  by (auto simp: named_def rule_duplicates_def Let_def split: prod.splits)

lemma count_le_zero:
  "le_zero cs = Inr bs \<Longrightarrow>
   length (filter (\<lambda>b. b) bs) = length (filter non_positive_cell cs)"
proof (induction cs arbitrary: bs)
  case Nil
  then show ?case by simp
next
  case (Cons c cs)
  then show ?case by (cases c) (auto simp: non_positive_cell_def split: sum.splits)
qed

lemma named_value_positive:
  assumes "rule_value_positive df st = Inr st'"
  shows "named n st' = named n st @
     (if n = ''value_positive'' \<and> ''value'' \<in> set (columns df)
      then [\<lparr>check_name = ''value_positive'',
             check_passed = (length (filter non_positive_cell (column df ''value'')) = 0),
             check_detail = NonPositive (length (filter non_positive_cell (column df ''value'')))\<rparr>]
      else [])"
  using assms
  by (auto simp: named_def rule_value_positive_def Let_def count_le_zero
           split: prod.splits if_splits sum.splits)

lemma named_time_parseable:
  "n \<noteq> ''time_parseable'' \<Longrightarrow> named n (rule_time_parseable conv df st) = named n st"
  by (auto simp: named_def rule_time_parseable_def Let_def split: prod.splits)

lemma named_monthly_other:
  "rule_monthly_frequency conv df st = Inr st' \<Longrightarrow> n \<noteq> ''monthly_frequency_no_gaps'' \<Longrightarrow>
   named n st' = named n st"
  by (auto simp: named_def rule_monthly_frequency_def Let_def
           split: prod.splits if_splits sum.splits)

lemma run_checks_stages:
  assumes "run_checks conv df = Inr rep"
  obtains st4 st6 where
    "rule_value_positive df
       (rule_duplicates df (rule_non_null df (rule_schema df ([], True)))) = Inr st4"
    "rule_monthly_frequency conv df (rule_time_parseable conv df st4) = Inr st6"
    "report_checks rep = fst st6" "report_passed rep = snd st6"
  using assms by (auto simp: run_checks_def Let_def split: sum.splits prod.splits)

lemma named_first_four:
  assumes "run_checks conv df = Inr rep"
    and "n \<noteq> ''no_duplicate_keys''" and "n \<noteq> ''time_parseable''"
    and "n \<noteq> ''monthly_frequency_no_gaps''"
  shows "filter (\<lambda>c. check_name c = n) (report_checks rep) =
     (if n = ''schema_required_columns''
      then [\<lparr>check_name = ''schema_required_columns'', check_passed = (missing_cols df = []),
             check_detail = Missing (missing_cols df)\<rparr>] else [])
     @ (if n = ''non_null_required_columns'' \<and> missing_cols df = []
        then [\<lparr>check_name = ''non_null_required_columns'',
               check_passed = list_all (\<lambda>v. v = 0) (map snd (null_counts df)),
               check_detail = NullCounts (null_counts df)\<rparr>] else [])
     @ (if n = ''value_positive'' \<and> ''value'' \<in> set (columns df)
        then [\<lparr>check_name = ''value_positive'',
               check_passed = (length (filter non_positive_cell (column df ''value'')) = 0),
               check_detail = NonPositive (length (filter non_positive_cell (column df ''value'')))\<rparr>]
        else [])"
proof -
  from assms(1) obtain st4 st6 where
    a: "rule_value_positive df
          (rule_duplicates df (rule_non_null df (rule_schema df ([], True)))) = Inr st4"
    and b: "rule_monthly_frequency conv df (rule_time_parseable conv df st4) = Inr st6"
    and c: "report_checks rep = fst st6"
    by (rule run_checks_stages)
  have e: "named n ([], True) = []" by (simp add: named_def)
  have "filter (\<lambda>c. check_name c = n) (report_checks rep) = named n st6"
    by (simp add: named_def c)
  also have "\<dots> = named n st4"
    using named_monthly_other[OF b assms(4)] named_time_parseable[OF assms(3)] by simp
  also have "\<dots> = named n (rule_non_null df (rule_schema df ([], True))) @
     (if n = ''value_positive'' \<and> ''value'' \<in> set (columns df)
      then [\<lparr>check_name = ''value_positive'',
             check_passed = (length (filter non_positive_cell (column df ''value'')) = 0),
             check_detail = NonPositive (length (filter non_positive_cell (column df ''value'')))\<rparr>]
      else [])"
    using named_value_positive[OF a, of n] named_duplicates[OF assms(2)] by simp
  finally show ?thesis
    by (simp only: named_non_null named_schema e append_Nil append_assoc)
qed

lemma conj_schema: "flag_is_conj st \<Longrightarrow> flag_is_conj (rule_schema df st)"
  by (auto simp: flag_is_conj_def rule_schema_def Let_def split: prod.splits)

lemma conj_non_null: "flag_is_conj st \<Longrightarrow> flag_is_conj (rule_non_null df st)"
  by (auto simp: flag_is_conj_def rule_non_null_def Let_def split: prod.splits)

lemma conj_duplicates: "flag_is_conj st \<Longrightarrow> flag_is_conj (rule_duplicates df st)"
  by (auto simp: flag_is_conj_def rule_duplicates_def Let_def split: prod.splits)

lemma conj_value_positive:
  "flag_is_conj st \<Longrightarrow> rule_value_positive df st = Inr st' \<Longrightarrow> flag_is_conj st'"
  by (auto simp: flag_is_conj_def rule_value_positive_def Let_def
           split: prod.splits if_splits sum.splits)

lemma conj_time_parseable: "flag_is_conj st \<Longrightarrow> flag_is_conj (rule_time_parseable conv df st)"
  by (auto simp: flag_is_conj_def rule_time_parseable_def Let_def split: prod.splits)

lemma conj_monthly:
  "flag_is_conj st \<Longrightarrow> rule_monthly_frequency conv df st = Inr st' \<Longrightarrow> flag_is_conj st'"
  by (auto simp: flag_is_conj_def rule_monthly_frequency_def Let_def
           split: prod.splits if_splits sum.splits)

lemma report_flag_is_conj:
  assumes "run_checks conv df = Inr rep"
  shows "report_passed rep = list_all check_passed (report_checks rep)"
proof -
  from assms obtain st4 st6 where
    a: "rule_value_positive df
          (rule_duplicates df (rule_non_null df (rule_schema df ([], True)))) = Inr st4"
    and b: "rule_monthly_frequency conv df (rule_time_parseable conv df st4) = Inr st6"
    and c: "report_checks rep = fst st6" "report_passed rep = snd st6"
    by (rule run_checks_stages)
  have "flag_is_conj ([], True)" by (simp add: flag_is_conj_def)
  then have "flag_is_conj st4"
    using a conj_schema conj_non_null conj_duplicates conj_value_positive by blast
  then have "flag_is_conj st6"
    using b conj_time_parseable conj_monthly by blast
  then show ?thesis using c by (simp add: flag_is_conj_def)
qed

text \<open>
  Claim C7. When the table has a value column and the checks return a report, the
  report holds exactly one \<open>value_positive\<close> check; it records the number of value cells
  that are present and less than or equal to zero (a null cell is never counted) and
  passes exactly when that number is zero.
\<close>

theorem value_positive_counts_present_non_positive:
  assumes "run_checks conv df = Inr rep"
    and "''value'' \<in> set (columns df)"
  shows "filter (\<lambda>c. check_name c = ''value_positive'') (report_checks rep)
         = [\<lparr>check_name = ''value_positive'',
             check_passed = (length (filter non_positive_cell (column df ''value'')) = 0),
             check_detail = NonPositive (length (filter non_positive_cell (column df ''value'')))\<rparr>]
         \<and> \<not> non_positive_cell CNull"
  using named_first_four[OF assms(1), of "''value_positive''"] assms(2)
  by (simp add: non_positive_cell_def)

theorem value_positive_counts_present_non_positive_witness:
  "\<exists>rep. run_checks (\<lambda>c. None) value_table = Inr rep
     \<and> column value_table ''value'' = [CNum 100, CNum 0, CNum (- 5), CNull]
     \<and> filter (\<lambda>c. check_name c = ''value_positive'') (report_checks rep)
       = [\<lparr>check_name = ''value_positive'', check_passed = False,
           check_detail = NonPositive 2\<rparr>]"
proof -
  obtain rep where h1: "run_checks (\<lambda>c. None) value_table = Inr rep"
    by (simp add: checks_eval value_table_def)
  have h2: "''value'' \<in> set (columns value_table)"
    by (simp add: value_table_def)
  have col: "column value_table ''value'' = [CNum 100, CNum 0, CNum (- 5), CNull]"
    by (simp add: value_table_def column_def cell_at_def)
  from value_positive_counts_present_non_positive [OF h1 h2] h1 col
  show ?thesis by (simp add: non_positive_cell_def)
qed

text \<open>
  Claim C8. In every report the checks return, the top-level flag is the conjunction of
  the flags of the checks in the report (the rules that were evaluated). The report holds
  one \<open>schema_required_columns\<close> check, which passes exactly when no required column is
  missing, and it holds a \<open>non_null_required_columns\<close> check exactly when that check
  passed.
\<close>

theorem report_flag_and_non_null_gate:
  assumes "run_checks conv df = Inr rep"
  shows "report_passed rep = list_all check_passed (report_checks rep)
         \<and> filter (\<lambda>c. check_name c = ''schema_required_columns'') (report_checks rep)
           = [\<lparr>check_name = ''schema_required_columns'', check_passed = (missing_cols df = []),
               check_detail = Missing (missing_cols df)\<rparr>]
         \<and> (filter (\<lambda>c. check_name c = ''non_null_required_columns'') (report_checks rep) \<noteq> [])
           = list_ex (\<lambda>c. check_name c = ''schema_required_columns'' \<and> check_passed c)
               (report_checks rep)"
proof -
  have s: "filter (\<lambda>c. check_name c = ''schema_required_columns'') (report_checks rep)
           = [\<lparr>check_name = ''schema_required_columns'', check_passed = (missing_cols df = []),
               check_detail = Missing (missing_cols df)\<rparr>]"
    using named_first_four[OF assms, of "''schema_required_columns''"] by simp
  have n: "(filter (\<lambda>c. check_name c = ''non_null_required_columns'') (report_checks rep) \<noteq> [])
           = (missing_cols df = [])"
    using named_first_four[OF assms, of "''non_null_required_columns''"] by simp
  have "list_ex (\<lambda>c. check_name c = ''schema_required_columns'' \<and> check_passed c)
          (report_checks rep)
        = list_ex check_passed
            (filter (\<lambda>c. check_name c = ''schema_required_columns'') (report_checks rep))"
    by (auto simp: list_ex_iff)
  also have "\<dots> = (missing_cols df = [])" by (simp add: s)
  finally show ?thesis using s n report_flag_is_conj[OF assms] by simp
qed

theorem report_flag_and_non_null_gate_witness:
  "\<exists>rep. run_checks (\<lambda>c. None) value_table = Inr rep
     \<and> report_passed rep = list_all check_passed (report_checks rep)
     \<and> filter (\<lambda>c. check_name c = ''schema_required_columns'') (report_checks rep)
       = [\<lparr>check_name = ''schema_required_columns'', check_passed = False,
           check_detail = Missing [''time'', ''geo'', ''coicop'', ''unit'']\<rparr>]
     \<and> (filter (\<lambda>c. check_name c = ''non_null_required_columns'') (report_checks rep) \<noteq> [])
       = list_ex (\<lambda>c. check_name c = ''schema_required_columns'' \<and> check_passed c)
           (report_checks rep)"
proof -
  obtain rep where h1: "run_checks (\<lambda>c. None) value_table = Inr rep"
    by (simp add: checks_eval value_table_def)
  have m: "missing_cols value_table = [''time'', ''geo'', ''coicop'', ''unit'']"
    by (simp add: missing_cols_def required_cols_def value_table_def)
  have n: "([''time'', ''geo'', ''coicop'', ''unit''] = []) = False" by simp
  from report_flag_and_non_null_gate [OF h1] h1
  show ?thesis unfolding m n by blast
qed

section \<open>Validator entry point: the latest pointer\<close>

lemma download_after_upload_same:
  "download_bytes (upload_bytes data path stamp store) path = Inr data"
  by (simp add: download_bytes_def upload_bytes_def update_conv')

lemma download_after_upload_other:
  "path' \<noteq> path \<Longrightarrow>
   download_bytes (upload_bytes data path stamp store) path' = download_bytes store path'"
  by (simp add: download_bytes_def upload_bytes_def update_conv')

lemma report_name_not_latest:
  "report_blob_name env rep \<noteq> env_quality_prefix env @ ''LATEST.json''"
  by (simp add: report_blob_name_def)

text \<open>
  Claim C9. Whenever a validator run produces a report (a processed table is found, it
  decodes, and the checks return), the run succeeds and leaves, under the name
  \<open>LATEST.json\<close>, a pointer to the report it has just written; this holds whether the
  report passed or not. The report's name ends in \<open>_PASS.json\<close> when the report's flag
  is set and in \<open>_FAIL.json\<close> otherwise.
\<close>

theorem latest_pointer_overwritten:
  assumes "latest_blob store (env_processed_prefix env) = Some pblob"
    and "pblob \<noteq> []"
    and "download_parquet store pblob = Inr df"
    and "run_checks conv df = Inr rep"
  shows "\<exists>store'. validator_main env conv store = Inr store'
           \<and> download_bytes store' (env_quality_prefix env @ ''LATEST.json'')
               = Inr (PointerContent (report_blob_name env rep))
           \<and> download_bytes store' (report_blob_name env rep)
               = Inr (ReportContent \<lparr>processed_blob = pblob,
                                      checked_at_utc = env_checked_at env,
                                      pipeline_stage = ''silver/quality''\<rparr> rep)
           \<and> report_blob_name env rep
               = env_quality_prefix env @ ''ts='' @ env_ts env
                   @ (if report_passed rep then ''_PASS.json'' else ''_FAIL.json'')"
  using assms report_name_not_latest[of env rep]
  by (simp add: validator_main_def Let_def download_after_upload_same
        download_after_upload_other)
     (simp add: report_blob_name_def)

theorem latest_pointer_overwritten_witness:
  "\<exists>store' rep. validator_main example_env (\<lambda>c. None) processed_store = Inr store'
     \<and> run_checks (\<lambda>c. None) value_table = Inr rep \<and> \<not> report_passed rep
     \<and> download_bytes store' (env_quality_prefix example_env @ ''LATEST.json'')
         = Inr (PointerContent (env_quality_prefix example_env @ ''ts=20240301_120000_FAIL.json''))"
proof -
  obtain rep where h4: "run_checks (\<lambda>c. None) value_table = Inr rep"
    and np: "\<not> report_passed rep"
    by (simp add: checks_eval value_table_def)
  have h1: "latest_blob processed_store (env_processed_prefix example_env) = Some processed_name"
    by (simp add: latest_blob_def list_blobs_def processed_store_def example_env_def
          processed_name_def)
  have h2: "processed_name \<noteq> []" by (simp add: processed_name_def)
  have h3: "download_parquet processed_store processed_name = Inr value_table"
    by (simp add: download_parquet_def download_bytes_def processed_store_def)
  from latest_pointer_overwritten [OF h1 h2 h3 h4] h4 np
  show ?thesis by (auto simp: example_env_def)
qed

section \<open>Validator: the monthly-frequency rule\<close>

lemma month_index_month_start: "month_index (month_start k) = k"
  by (simp add: month_index_def month_start_def)

lemma month_start_month_index:
  "valid_month ts \<Longrightarrow> snd (snd ts) = 1 \<Longrightarrow> month_start (month_index ts) = ts"
  by (cases ts) (auto simp: month_index_def month_start_def valid_month_def)

lemma consecutive_upto: "consecutive_month_starts (map month_start [a..b])"
proof (induction a b rule: upto.induct)
  case (1 i j)
  show ?case
  proof (cases "i \<le> j")
    case False
    then show ?thesis by simp
  next
    case True
    note ij = this
    show ?thesis
    proof (cases "i + 1 \<le> j")
      case False
      with ij have "[i..j] = [i]" by (simp add: upto_rec1)
      then show ?thesis by (simp add: month_start_def)
    next
      case True
      then have e: "[i..j] = i # (i + 1) # [i + 1 + 1..j]"
        using ij by (simp add: upto_rec1)
      have r: "[i + 1..j] = (i + 1) # [i + 1 + 1..j]"
        using True by (simp add: upto_rec1)
      from "1.IH"[OF ij] have "consecutive_month_starts (map month_start [i + 1..j])" .
      then show ?thesis
        unfolding e using r by (simp add: month_index_month_start) (simp add: month_start_def)
    qed
  qed
qed

lemma consecutive_is_upto:
  "consecutive_month_starts t \<Longrightarrow> t \<noteq> [] \<Longrightarrow> list_all valid_month t \<Longrightarrow>
   month_index (hd t) \<le> month_index (last t)
   \<and> t = map month_start [month_index (hd t)..month_index (last t)]"
proof (induction t rule: consecutive_month_starts.induct)
  case 1
  then show ?case by simp
next
  case (2 x)
  then show ?case by (simp add: month_start_month_index)
next
  case (3 x y zs)
  from "3.prems" have c': "consecutive_month_starts (y # zs)"
    and xy: "month_index y = month_index x + 1" and x1: "snd (snd x) = 1"
    and vx: "valid_month x" and v': "list_all valid_month (y # zs)"
    by simp_all
  have ne: "y # zs \<noteq> []" by simp
  define L where "L = month_index (last (y # zs))"
  from "3.IH"[OF c' ne v'] have ih: "month_index y \<le> L"
    "y # zs = map month_start [month_index y..L]"
    unfolding L_def list.sel by blast+
  have le: "month_index x \<le> L" using ih(1) xy by simp
  have "[month_index x..L] = month_index x # [month_index y..L]"
    using le xy by (simp add: upto_rec1)
  then have "map month_start [month_index x..L] = x # y # zs"
    using ih(2) month_start_month_index[OF vx x1] by simp
  moreover have "last (x # y # zs) = last (y # zs)" by simp
  ultimately show ?case using le unfolding L_def list.sel by metis
qed

lemma date_range_eq_iff:
  assumes "t \<noteq> []" and "list_all valid_month t"
  shows "(date_range_MS (t ! 0) (last t) = t) = consecutive_month_starts t"
proof
  assume "date_range_MS (t ! 0) (last t) = t"
  then obtain a b where "t = map month_start [a..b]"
    unfolding date_range_MS_def Let_def by metis
  then show "consecutive_month_starts t" using consecutive_upto by simp
next
  assume c: "consecutive_month_starts t"
  from assms(1) have h: "t ! 0 = hd t" by (cases t) simp_all
  from c assms(1) have d1: "snd (snd (hd t)) = 1" by (cases t rule: consecutive_month_starts.cases) simp_all
  have "date_range_MS (hd t) (last t) = map month_start [month_index (hd t)..month_index (last t)]"
    using d1 by (cases "hd t") (simp add: date_range_MS_def)
  then show "date_range_MS (t ! 0) (last t) = t"
    using consecutive_is_upto[OF c assms] h by simp
qed

lemma to_datetime_raise_times_of:
  "to_datetime_raise conv (filter (\<lambda>c. c \<noteq> CNull) cs) = Inr ts \<Longrightarrow> ts = times_of conv cs"
proof (induction cs arbitrary: ts)
  case Nil
  then show ?case by (simp add: times_of_def)
next
  case (Cons c cs)
  show ?case
  proof (cases "c = CNull")
    case True
    with Cons show ?thesis by (simp add: times_of_def to_datetime_coerce_def)
  next
    case False
    with Cons.prems obtain t rest where
      "to_datetime_coerce conv c = Some t"
      "to_datetime_raise conv (filter (\<lambda>c. c \<noteq> CNull) cs) = Inr rest" "ts = t # rest"
      by (auto split: option.splits sum.splits)
    with Cons.IH show ?thesis by (simp add: times_of_def)
  qed
qed

lemma monthly_frequency_ok_spec:
  assumes "monthly_frequency_ok conv (map (\<lambda>r. cell_at r ''time'') sub) = Inr ok"
    and "valid_times conv sub"
  shows "ok = group_passes conv sub"
proof -
  let ?cs = "map (\<lambda>r. cell_at r ''time'') sub"
  let ?t = "remdups (sort (times_of conv ?cs))"
  from assms(1) obtain ts where
    r: "to_datetime_raise conv (filter (\<lambda>c. c \<noteq> CNull) ?cs) = Inr ts"
    by (auto simp: monthly_frequency_ok_def split: sum.splits)
  have ts: "ts = times_of conv ?cs" using to_datetime_raise_times_of[OF r] .
  have v: "list_all valid_month ?t"
    using assms(2) by (simp add: valid_times_def list_all_iff)
  show ?thesis
  proof (cases "length ?t < 3")
    case True
    with assms(1) r ts show ?thesis
      by (simp add: monthly_frequency_ok_def group_passes_def Let_def)
  next
    case False
    then have ne: "?t \<noteq> []" by auto
    have "ok = (length (date_range_MS (?t ! 0) (last ?t)) = length ?t
                \<and> list_all2 (=) (date_range_MS (?t ! 0) (last ?t)) ?t)"
      using assms(1) r ts False by (simp add: monthly_frequency_ok_def Let_def)
    also have "\<dots> = (date_range_MS (?t ! 0) (last ?t) = ?t)"
      by (auto simp: list.rel_eq)
    also have "\<dots> = consecutive_month_starts ?t"
      by (rule date_range_eq_iff[OF ne v])
    finally show ?thesis using False by (simp add: group_passes_def Let_def)
  qed
qed

lemma freq_loop_spec:
  assumes "freq_loop conv gs (p, ds) = Inr (p', ds')"
    and "\<forall>g \<in> set gs. valid_times conv (snd g)"
  shows "p' = (p \<and> list_all (\<lambda>g. group_passes conv (snd g)) gs)
         \<and> ds' = ds @ map fst (filter (\<lambda>g. \<not> group_passes conv (snd g)) gs)"
  using assms
proof (induction gs arbitrary: p ds)
  case Nil
  then show ?case by simp
next
  case (Cons g gs)
  obtain k sub where g: "g = (k, sub)" by (cases g)
  from Cons.prems(1) obtain ok where
    ok: "monthly_frequency_ok conv (map (\<lambda>r. cell_at r ''time'') sub) = Inr ok"
    and rest: "freq_loop conv gs (p \<and> ok, if \<not> ok then ds @ [k] else ds) = Inr (p', ds')"
    unfolding g by (auto split: sum.splits)
  have v: "valid_times conv sub" using Cons.prems(2) g by simp
  have e: "ok = group_passes conv sub" by (rule monthly_frequency_ok_spec[OF ok v])
  from Cons.IH[OF rest] Cons.prems(2)
  show ?case unfolding g e by auto
qed

lemma valid_times_subset:
  "valid_times conv rs \<Longrightarrow> set sub \<subseteq> set rs \<Longrightarrow> valid_times conv sub"
  by (auto simp: valid_times_def times_of_def list_all_iff split: option.splits)

lemma groupby_rows: "g \<in> set (groupby df) \<Longrightarrow> set (snd g) \<subseteq> set (rows df)"
  by (auto simp: groupby_def Let_def)

lemma groupby_covers:
  "r \<in> set (rows df) \<Longrightarrow> has_group r \<Longrightarrow>
   (group_key r, filter (\<lambda>r'. group_key r' = group_key r) (filter has_group (rows df)))
     \<in> set (groupby df)"
  by (auto simp: groupby_def Let_def)

lemma named_monthly:
  assumes "rule_monthly_frequency conv df st = Inr st'"
    and "list_all (\<lambda>c. c \<in> set (columns df)) [''time'', ''geo'', ''coicop'', ''unit'']"
    and "valid_times conv (rows df)"
  shows "named ''monthly_frequency_no_gaps'' st'
         = named ''monthly_frequency_no_gaps'' st @
           [\<lparr>check_name = ''monthly_frequency_no_gaps'',
             check_passed = list_all (\<lambda>g. group_passes conv (snd g)) (groupby df),
             check_detail = FreqDetails
               (map fst (filter (\<lambda>g. \<not> group_passes conv (snd g)) (groupby df)))\<rparr>]"
proof -
  obtain checks passed where st: "st = (checks, passed)" by (cases st)
  from assms(1,2) obtain p ds where
    l: "freq_loop conv (groupby df) (True, []) = Inr (p, ds)"
    and s: "st' = (checks @ [\<lparr>check_name = ''monthly_frequency_no_gaps'', check_passed = p,
                              check_detail = FreqDetails ds\<rparr>], passed \<and> p)"
    unfolding st rule_monthly_frequency_def
    by (auto split: sum.splits if_splits)
  have v: "\<forall>g \<in> set (groupby df). valid_times conv (snd g)"
    using valid_times_subset[OF assms(3)] groupby_rows by blast
  from freq_loop_spec[OF l v] show ?thesis
    unfolding s st by (simp add: named_def)
qed

text \<open>
  Claim C6. For a table that has the four columns time, geo, coicop and unit, the
  report holds exactly one \<open>monthly_frequency_no_gaps\<close> check. It passes exactly when
  every group of rows sharing (geo, coicop, unit) passes, and a group passes exactly when
  its distinct sorted non-null times are fewer than three or are consecutive month
  starts from the first to the last. Every row whose three grouping cells are present
  lies in the group of its key.
\<close>

theorem monthly_rule_passes_iff_no_gaps:
  assumes "run_checks conv df = Inr rep"
    and "list_all (\<lambda>c. c \<in> set (columns df)) [''time'', ''geo'', ''coicop'', ''unit'']"
    and "valid_times conv (rows df)"
  shows "filter (\<lambda>c. check_name c = ''monthly_frequency_no_gaps'') (report_checks rep)
         = [\<lparr>check_name = ''monthly_frequency_no_gaps'',
             check_passed = list_all (\<lambda>g. group_passes conv (snd g)) (groupby df),
             check_detail = FreqDetails
               (map fst (filter (\<lambda>g. \<not> group_passes conv (snd g)) (groupby df)))\<rparr>]
         \<and> list_all (\<lambda>r. \<not> has_group r \<or>
              (group_key r, filter (\<lambda>r'. group_key r' = group_key r)
                              (filter has_group (rows df))) \<in> set (groupby df)) (rows df)"
proof -
  let ?M = "''monthly_frequency_no_gaps''"
  from assms(1) obtain st4 st6 where
    a: "rule_value_positive df
          (rule_duplicates df (rule_non_null df (rule_schema df ([], True)))) = Inr st4"
    and b: "rule_monthly_frequency conv df (rule_time_parseable conv df st4) = Inr st6"
    and c: "report_checks rep = fst st6"
    by (rule run_checks_stages)
  have "named ?M st4 = named ?M ([], True)"
    using named_value_positive[OF a, of ?M]
    by (simp add: named_duplicates named_non_null named_schema)
  then have e: "named ?M (rule_time_parseable conv df st4) = []"
    by (simp add: named_time_parseable) (simp add: named_def)
  have "filter (\<lambda>c. check_name c = ?M) (report_checks rep) = named ?M st6"
    by (simp add: named_def c)
  then show ?thesis
    using named_monthly[OF b assms(2,3)] e groupby_covers[of _ df]
    by (auto simp: list_all_iff)
qed

theorem monthly_rule_passes_iff_no_gaps_witness:
  "(\<exists>rep. run_checks (\<lambda>c. None) (series_table [(2024, 1, 1), (2024, 2, 1), (2024, 4, 1)]) = Inr rep
      \<and> filter (\<lambda>c. check_name c = ''monthly_frequency_no_gaps'') (report_checks rep)
        = [\<lparr>check_name = ''monthly_frequency_no_gaps'', check_passed = False,
            check_detail = FreqDetails [(CStr ''LU'', CStr ''CP00'', CStr ''I15'')]\<rparr>])
   \<and> (\<exists>rep. run_checks (\<lambda>c. None) (series_table [(2024, 1, 1), (2024, 2, 1)]) = Inr rep
      \<and> filter (\<lambda>c. check_name c = ''monthly_frequency_no_gaps'') (report_checks rep)
        = [\<lparr>check_name = ''monthly_frequency_no_gaps'', check_passed = True,
            check_detail = FreqDetails []\<rparr>])"
proof -
  let ?gap = "series_table [(2024, 1, 1), (2024, 2, 1), (2024, 4, 1)]"
  let ?two = "series_table [(2024, 1, 1), (2024, 2, 1)]"
  have cols: "\<And>tss. list_all (\<lambda>c. c \<in> set (columns (series_table tss)))
                 [''time'', ''geo'', ''coicop'', ''unit'']"
    by (simp add: series_table_def)
  have g1: "groupby ?gap = [((CStr ''LU'', CStr ''CP00'', CStr ''I15''), rows ?gap)]"
    by (simp add: groupby_def series_table_def obs_row_def group_key_def has_group_def
          cell_at_def)
  have g2: "groupby ?two = [((CStr ''LU'', CStr ''CP00'', CStr ''I15''), rows ?two)]"
    by (simp add: groupby_def series_table_def obs_row_def group_key_def has_group_def
          cell_at_def)
  have t1: "times_of (\<lambda>c. None) (map (\<lambda>r. cell_at r ''time'') (rows ?gap))
            = [(2024, 1, 1), (2024, 2, 1), (2024, 4, 1)]"
    by (simp add: times_of_def series_table_def obs_row_def cell_at_def to_datetime_coerce_def)
  have t2: "times_of (\<lambda>c. None) (map (\<lambda>r. cell_at r ''time'') (rows ?two))
            = [(2024, 1, 1), (2024, 2, 1)]"
    by (simp add: times_of_def series_table_def obs_row_def cell_at_def to_datetime_coerce_def)
  have v1: "valid_times (\<lambda>c. None) (rows ?gap)"
    unfolding valid_times_def t1 by (simp add: valid_month_def)
  have v2: "valid_times (\<lambda>c. None) (rows ?two)"
    unfolding valid_times_def t2 by (simp add: valid_month_def)
  have p1: "\<not> group_passes (\<lambda>c. None) (rows ?gap)"
    unfolding group_passes_def t1 by (simp add: month_index_def)
  have p2: "group_passes (\<lambda>c. None) (rows ?two)"
    unfolding group_passes_def t2 by (simp add: month_index_def)
  obtain rep1 where h1: "run_checks (\<lambda>c. None) ?gap = Inr rep1"
    by (simp add: checks_eval series_table_def obs_row_def)
  obtain rep2 where h2: "run_checks (\<lambda>c. None) ?two = Inr rep2"
    by (simp add: checks_eval series_table_def obs_row_def)
  from monthly_rule_passes_iff_no_gaps [OF h1 cols v1]
  have r1: "filter (\<lambda>c. check_name c = ''monthly_frequency_no_gaps'') (report_checks rep1)
        = [\<lparr>check_name = ''monthly_frequency_no_gaps'', check_passed = False,
            check_detail = FreqDetails [(CStr ''LU'', CStr ''CP00'', CStr ''I15'')]\<rparr>]"
    unfolding g1 using p1 by simp
  from monthly_rule_passes_iff_no_gaps [OF h2 cols v2]
  have r2: "filter (\<lambda>c. check_name c = ''monthly_frequency_no_gaps'') (report_checks rep2)
        = [\<lparr>check_name = ''monthly_frequency_no_gaps'', check_passed = True,
            check_detail = FreqDetails []\<rparr>]"
    unfolding g2 using p2 by simp
  from h1 r1 h2 r2 show ?thesis by blast
qed

section \<open>Transformer: rows, row count and order\<close>

lemma length_product_lists_prod:
  "length (product_lists xss) = prod_list (map length xss)"
  by (induction xss) (simp_all add: length_concat comp_def sum_list_triv)

lemma int_prod_list: "int (prod_list ns) = prod_list (map int ns)"
  by (induction ns) simp_all

lemma length_codes_by_dim_loop:
  "codes_by_dim_loop dimension ds = Inr cbd \<Longrightarrow> length cbd = length ds"
  by (induction ds arbitrary: cbd) (auto split: option.splits sum.splits)

lemma build_rows_Inr:
  "build_rows dim_order values i combos = Inr rs \<Longrightarrow>
   length rs = length combos
   \<and> (\<forall>j<length rs. \<exists>v. value_at values (i + j) = Inr v
          \<and> rs ! j = AList.update ''value'' v (dims_row dim_order (combos ! j)))"
proof (induction combos arbitrary: i rs)
  case Nil
  then show ?case by simp
next
  case (Cons combo combos)
  from Cons.prems obtain v rest where
    v: "value_at values i = Inr v"
    and r: "build_rows dim_order values (Suc i) combos = Inr rest"
    and rs: "rs = AList.update ''value'' v (dims_row dim_order combo) # rest"
    by (auto split: sum.splits)
  from Cons.IH[OF r] have ih: "length rest = length combos"
    "\<forall>j<length rest. \<exists>v. value_at values (Suc i + j) = Inr v
          \<and> rest ! j = AList.update ''value'' v (dims_row dim_order (combos ! j))"
    by simp_all
  show ?case
  proof (intro conjI allI impI)
    show "length rs = length (combo # combos)" using ih(1) rs by simp
  next
    fix j assume "j < length rs"
    then show "\<exists>w. value_at values (i + j) = Inr w
          \<and> rs ! j = AList.update ''value'' w (dims_row dim_order ((combo # combos) ! j))"
      using v ih(2) rs by (cases j) auto
  qed
qed

lemma build_rows_dense_succeeds:
  "i + length combos \<le> length vs \<Longrightarrow>
   \<exists>rs. build_rows dim_order (ValueList vs) i combos = Inr rs"
proof (induction combos arbitrary: i)
  case Nil
  then show ?case by simp
next
  case (Cons combo combos)
  then have "Suc i + length combos \<le> length vs" by simp
  from Cons.IH[OF this] obtain rest where
    "build_rows dim_order (ValueList vs) (Suc i) combos = Inr rest" by blast
  moreover have "value_at (ValueList vs) i = Inr (num_cell (vs ! i))"
    using Cons.prems by (simp add: value_at_def)
  ultimately show ?case by simp
qed

lemma map_time_length:
  "map_time to_datetime rs = Inr rs' \<Longrightarrow> length rs' = length rs"
  by (induction rs arbitrary: rs') (auto split: sum.splits)

lemma map_time_succeeds:
  "\<forall>r \<in> set rs. \<exists>c. parse_time_cell to_datetime (cell_at r ''time'') = Inr c \<Longrightarrow>
   \<exists>rs'. map_time to_datetime rs = Inr rs'"
  by (induction rs) (auto split: sum.splits)

lemma rows_DataFrame: "rows (DataFrame rs) = rs"
  by (simp add: DataFrame_def)

lemma tidy_unfold:
  assumes "tidy to_datetime rs = Inr df"
  obtains rs' where
    "(if ''time'' \<in> set (columns (DataFrame rs)) then map_time to_datetime rs else Inr rs)
     = Inr rs'"
    "df = \<lparr>columns = ordered_cols (columns (DataFrame rs)),
           rows = sort_values (sort_cols (ordered_cols (columns (DataFrame rs))))
                    (map (select_cols (ordered_cols (columns (DataFrame rs)))) rs')\<rparr>"
  using assms
  by (auto simp: tidy_def Let_def rows_DataFrame split: sum.splits if_splits)

lemma tidy_Inr:
  assumes "tidy to_datetime rs = Inr df"
  shows "length (rows df) = length rs
         \<and> sorted (map (row_key (sort_cols (columns df))) (rows df))"
proof -
  from assms obtain rs' where
    m: "(if ''time'' \<in> set (columns (DataFrame rs)) then map_time to_datetime rs else Inr rs)
        = Inr rs'"
    and df: "df = \<lparr>columns = ordered_cols (columns (DataFrame rs)),
                  rows = sort_values (sort_cols (ordered_cols (columns (DataFrame rs))))
                           (map (select_cols (ordered_cols (columns (DataFrame rs)))) rs')\<rparr>"
    by (rule tidy_unfold)
  have "length rs' = length rs"
    using m map_time_length by (auto split: if_splits)
  then show ?thesis unfolding df by (simp add: sort_values_def)
qed


lemma fold_update_lookup:
  "map_of (fold (\<lambda>(k, v) r. AList.update k (CStr v) r) kvs acc) k = Some cell \<Longrightarrow>
   (\<exists>v. cell = CStr v \<and> (k, v) \<in> set kvs) \<or> map_of acc k = Some cell"
proof (induction kvs arbitrary: acc)
  case Nil
  then show ?case by simp
next
  case (Cons kv kvs)
  obtain k' v' where kv: "kv = (k', v')" by (cases kv)
  from Cons.prems have
    "map_of (fold (\<lambda>(k, v) r. AList.update k (CStr v) r) kvs (AList.update k' (CStr v') acc)) k
     = Some cell"
    by (simp add: kv)
  from Cons.IH[OF this] show ?case
    by (auto simp: kv update_conv' split: if_splits)
qed

lemma cell_at_dims_row:
  "cell_at (dims_row ds combo) k = CNull
   \<or> (\<exists>v. cell_at (dims_row ds combo) k = CStr v \<and> (k, v) \<in> set (zip ds combo))"
proof (cases "map_of (dims_row ds combo) k")
  case None
  then show ?thesis by (simp add: cell_at_def)
next
  case (Some cell)
  then have "(\<exists>v. cell = CStr v \<and> (k, v) \<in> set (zip ds combo))"
    using fold_update_lookup[of "zip ds combo" "[]" k cell] by (simp add: dims_row_def)
  with Some show ?thesis by (auto simp: cell_at_def)
qed

lemma zip_product_lists:
  assumes "(k, v) \<in> set (zip ds combo)" and "combo \<in> set (product_lists cbd)"
    and "length cbd = length ds"
  shows "\<exists>codes. (k, codes) \<in> set (zip ds cbd) \<and> v \<in> set codes"
proof -
  from assms(2) have l2: "list_all2 (\<lambda>x ys. x \<in> set ys) combo cbd"
    by (simp add: product_lists_set)
  then have len: "length combo = length cbd" by (rule list_all2_lengthD)
  from assms(1) obtain i where i: "i < length ds" "i < length combo" "ds ! i = k" "combo ! i = v"
    by (auto simp: in_set_zip)
  from l2 i(2) have "combo ! i \<in> set (cbd ! i)" by (rule list_all2_nthD)
  moreover have "(ds ! i, cbd ! i) \<in> set (zip ds cbd)"
    using i(1) assms(3) by (auto simp: in_set_zip)
  ultimately show ?thesis using i(3,4) by blast
qed

lemma cell_at_update_other:
  "k' \<noteq> k \<Longrightarrow> cell_at (AList.update k v r) k' = cell_at r k'"
  by (simp add: cell_at_def update_conv')

lemma cell_at_update_same: "cell_at (AList.update k v r) k = v"
  by (simp add: cell_at_def update_conv')

lemma row_time_parses:
  assumes "time_codes_parse to_datetime ds cbd" and "combo \<in> set (product_lists cbd)"
    and "length cbd = length ds"
  shows "\<exists>c. parse_time_cell to_datetime
               (cell_at (AList.update ''value'' w (dims_row ds combo)) ''time'') = Inr c"
proof -
  have e: "cell_at (AList.update ''value'' w (dims_row ds combo)) ''time''
           = cell_at (dims_row ds combo) ''time''"
    by (rule cell_at_update_other) simp
  from cell_at_dims_row[of ds combo "''time''"] show ?thesis
  proof
    assume "cell_at (dims_row ds combo) ''time'' = CNull"
    then show ?thesis unfolding e by (simp add: parse_time_cell_def)
  next
    assume "\<exists>v. cell_at (dims_row ds combo) ''time'' = CStr v
                \<and> (''time'', v) \<in> set (zip ds combo)"
    then obtain v where v: "cell_at (dims_row ds combo) ''time'' = CStr v"
      and z: "(''time'', v) \<in> set (zip ds combo)" by blast
    from zip_product_lists[OF z assms(2,3)] obtain codes where
      c: "(''time'', codes) \<in> set (zip ds cbd)" "v \<in> set codes" by blast
    from assms(1) c have "case parse_time_code to_datetime (Some v) of
                            Inl e \<Rightarrow> False | Inr t \<Rightarrow> True"
      by (auto simp: time_codes_parse_def list_all_iff)
    then show ?thesis unfolding e v
      by (auto simp: parse_time_cell_def split: sum.splits option.splits)
  qed
qed

lemma build_rows_members:
  assumes "build_rows dim_order values i combos = Inr rs" and "r \<in> set rs"
  shows "\<exists>combo \<in> set combos. \<exists>v. r = AList.update ''value'' v (dims_row dim_order combo)"
proof -
  from assms(2) obtain j where j: "j < length rs" "rs ! j = r"
    by (auto simp: in_set_conv_nth)
  from build_rows_Inr[OF assms(1)] j obtain v where
    "length rs = length combos"
    "r = AList.update ''value'' v (dims_row dim_order (combos ! j))"
    by auto
  then show ?thesis using j(1) by (metis nth_mem)
qed

lemma transform_stages:
  assumes "payload_dimension p = Some dimension" and "payload_id p = Some dim_order"
    and "payload_size p = Some sizes" and "payload_value p = Some values"
    and "codes_by_dim_loop dimension dim_order = Inr cbd"
    and "len_values values = Some n"
  shows "jsonstat_to_dataframe to_datetime p =
         (if int n \<noteq> prod_list sizes
          then Inl (RuntimeError_ValueLengthMismatch n (prod_list sizes))
          else (case build_rows dim_order values 0 (product_lists cbd) of
                  Inl e \<Rightarrow> Inl e
                | Inr rs \<Rightarrow> tidy to_datetime rs))"
  using assms by (simp add: jsonstat_to_dataframe_def)

text \<open>
  Claim C3. A payload that reaches the sanity check (its four keys are present and every
  declared dimension has a description with a supported index) is considered. If it
  is a well-formed dense cube (each declared size is the number of codes of its
  dimension, the value list has as many entries as the product of the sizes, and the
  time codes are ones the parser returns on), the transform returns a table with as
  many rows as the product of the declared sizes. If the length of the value object
  differs from that product, the transform returns no table: it fails with the
  length-mismatch error, which carries the actual and the expected length.
\<close>

theorem row_count_and_length_mismatch:
  assumes "payload_dimension p = Some dimension" and "payload_id p = Some dim_order"
    and "payload_size p = Some sizes" and "payload_value p = Some values"
    and "codes_by_dim_loop dimension dim_order = Inr cbd"
  shows "(values = ValueList vs \<and> sizes = map (\<lambda>codes. int (length codes)) cbd
          \<and> int (length vs) = prod_list sizes \<and> time_codes_parse to_datetime dim_order cbd
          \<longrightarrow> (\<exists>df. jsonstat_to_dataframe to_datetime p = Inr df
                    \<and> int (length (rows df)) = prod_list sizes))
         \<and> (len_values values = Some n \<and> int n \<noteq> prod_list sizes
          \<longrightarrow> jsonstat_to_dataframe to_datetime p
                = Inl (RuntimeError_ValueLengthMismatch n (prod_list sizes)))"
proof (intro conjI impI)
  assume "len_values values = Some n \<and> int n \<noteq> prod_list sizes"
  then show "jsonstat_to_dataframe to_datetime p
             = Inl (RuntimeError_ValueLengthMismatch n (prod_list sizes))"
    using transform_stages[OF assms, of n to_datetime] by simp
next
  assume wf: "values = ValueList vs \<and> sizes = map (\<lambda>codes. int (length codes)) cbd
          \<and> int (length vs) = prod_list sizes \<and> time_codes_parse to_datetime dim_order cbd"
  let ?combos = "product_lists cbd"
  have len: "length cbd = length dim_order"
    by (rule length_codes_by_dim_loop[OF assms(5)])
  have "prod_list sizes = int (length ?combos)"
    using wf by (simp add: length_product_lists_prod int_prod_list comp_def)
  with wf have n: "length vs = length ?combos" by simp
  then obtain rs where b: "build_rows dim_order (ValueList vs) 0 ?combos = Inr rs"
    using build_rows_dense_succeeds[of 0 ?combos vs dim_order] by auto
  have lrs: "length rs = length ?combos" using build_rows_Inr[OF b] by simp
  have "\<forall>r \<in> set rs. \<exists>c. parse_time_cell to_datetime (cell_at r ''time'') = Inr c"
  proof
    fix r assume "r \<in> set rs"
    from build_rows_members[OF b this] obtain combo v where
      "combo \<in> set ?combos" "r = AList.update ''value'' v (dims_row dim_order combo)"
      by blast
    then show "\<exists>c. parse_time_cell to_datetime (cell_at r ''time'') = Inr c"
      using row_time_parses[of to_datetime dim_order cbd combo v] wf len by simp
  qed
  from map_time_succeeds[OF this] obtain rs' where m: "map_time to_datetime rs = Inr rs'"
    by blast
  have "\<exists>df. tidy to_datetime rs = Inr df"
    using m by (cases "''time'' \<in> set (columns (DataFrame rs))")
      (simp_all add: tidy_def Let_def rows_DataFrame)
  then obtain df where t: "tidy to_datetime rs = Inr df" by blast
  have lv: "len_values values = Some (length vs)" using wf by (simp add: len_values_def)
  have "jsonstat_to_dataframe to_datetime p = Inr df"
    using transform_stages[OF assms lv, of to_datetime] wf b t by simp
  moreover have "int (length (rows df)) = prod_list sizes"
    using tidy_Inr[OF t] lrs n wf by simp
  ultimately show "\<exists>df. jsonstat_to_dataframe to_datetime p = Inr df
                    \<and> int (length (rows df)) = prod_list sizes" by blast
qed

theorem row_count_and_length_mismatch_witness:
  "(\<exists>df. jsonstat_to_dataframe (\<lambda>s. None) (example_cube (ValueList [Some 100, Some 101.5]))
           = Inr df \<and> int (length (rows df)) = 2)
   \<and> jsonstat_to_dataframe (\<lambda>s. None) (example_cube (ValueList [Some 100]))
     = Inl (RuntimeError_ValueLengthMismatch 1 2)"
proof -
  let ?cbd = "[[''2024M01'', ''2024M02''], [''LU''], [''CP00''], [''I15'']]"
  let ?ids = "[''time'', ''geo'', ''coicop'', ''unit'']"
  have h1: "\<And>v. payload_dimension (example_cube v) = Some example_dimension"
    and h2: "\<And>v. payload_id (example_cube v) = Some ?ids"
    and h3: "\<And>v. payload_size (example_cube v) = Some [2, 1, 1, 1]"
    and h4: "\<And>v. payload_value (example_cube v) = Some v"
    by (simp_all add: example_cube_def)
  have h5: "codes_by_dim_loop example_dimension ?ids = Inr ?cbd"
    by (simp add: example_dimension_def index_dim_def ordered_category_codes_def)
  have t: "time_codes_parse (\<lambda>s. None) ?ids ?cbd"
    by (simp add: time_codes_parse_def parse_time_code_def match_monthly_def is_digit_def
          int_of_digits_def digit_val_def Timestamp_def days_in_month_def)
  from row_count_and_length_mismatch [OF h1 h2 h3 h4 h5,
      of "ValueList [Some 100, Some 101.5]" "[Some 100, Some 101.5]" "\<lambda>s. None"] t
  have a: "\<exists>df. jsonstat_to_dataframe (\<lambda>s. None) (example_cube (ValueList [Some 100, Some 101.5]))
           = Inr df \<and> int (length (rows df)) = 2"
    by simp
  from row_count_and_length_mismatch [OF h1 h2 h3 h4 h5, of "ValueList [Some 100]" _ _ 1]
  have b: "jsonstat_to_dataframe (\<lambda>s. None) (example_cube (ValueList [Some 100]))
     = Inl (RuntimeError_ValueLengthMismatch 1 2)"
    by (simp add: len_values_def)
  from a b show ?thesis by blast
qed















end
